theory Spec2Isabelle
  imports Main
begin

section \<open>Python strings\<close>

text \<open>
  A Python \<open>str\<close> is a sequence of Unicode code points, so a string is a list of
  natural numbers here and \<open>length\<close> counts code points. \<open>ustr\<close> embeds an ASCII
  literal. The source's Chinese literals are given by their code points.
\<close>

type_synonym ustring = "nat list"

definition ustr :: "string \<Rightarrow> ustring" where
  "ustr s = map of_char s"

text \<open>
  \<open>str.strip()\<close>, \<open>str.isspace()\<close> and the pattern \<open>\s\<close> of \<open>re\<close> on a \<open>str\<close>
  all use the same set of white space code points.
\<close>

definition isspace :: "nat \<Rightarrow> bool" where
  "isspace c \<longleftrightarrow>
     (9 \<le> c \<and> c \<le> 13) \<or> (28 \<le> c \<and> c \<le> 32) \<or> c = 133 \<or> c = 160 \<or> c = 5760 \<or>
     (8192 \<le> c \<and> c \<le> 8202) \<or> c = 8232 \<or> c = 8233 \<or> c = 8239 \<or> c = 8287 \<or>
     c = 12288"

text \<open>
  The decimal digits (general category Nd) come in runs of ten consecutive code points,
  zero first: the table lists the zero of every run (Unicode 14, as CPython 3.11 has it).
  \<open>\d\<close> and \<open>\D\<close> of \<open>re\<close> and the conversion \<open>int(str)\<close> both use this set.
\<close>

definition decimal_zeros :: "nat list" where
  "decimal_zeros =
     [48, 1632, 1776, 1984, 2406, 2534, 2662, 2790, 2918, 3046, 3174, 3302, 3430, 3558,
      3664, 3792, 3872, 4160, 4240, 6112, 6160, 6470, 6608, 6784, 6800, 6992, 7088, 7232,
      7248, 42528, 43216, 43264, 43472, 43504, 43600, 44016, 65296, 66720, 68912, 69734,
      69872, 69942, 70096, 70384, 70736, 70864, 71248, 71360, 71472, 71904, 72016, 72784,
      73040, 73120, 92768, 92864, 93008, 120782, 120792, 120802, 120812, 120822, 123200,
      123632, 125264, 130032]"

definition decimal_value :: "nat \<Rightarrow> nat option" where
  "decimal_value c =
     (case filter (\<lambda>z. z \<le> c \<and> c < z + 10) decimal_zeros of
        [] \<Rightarrow> None
      | z # _ \<Rightarrow> Some (c - z))"

definition isdecimal :: "nat \<Rightarrow> bool" where
  "isdecimal c \<longleftrightarrow> decimal_value c \<noteq> None"

text \<open>
  \<open>re.sub(p+, repl, s)\<close> for a one-character class \<open>p\<close>: every maximal run of
  characters of the class is replaced by \<open>repl\<close>.
\<close>

function re_sub_runs :: "(nat \<Rightarrow> bool) \<Rightarrow> ustring \<Rightarrow> ustring \<Rightarrow> ustring" where
  "re_sub_runs p repl [] = []"
| "re_sub_runs p repl (c # cs) =
     (if p c then repl @ re_sub_runs p repl (dropWhile p cs)
      else c # re_sub_runs p repl cs)"
  by pat_completeness auto
termination
  by (relation "measure (\<lambda>(p, repl, s). length s)")
     (auto simp: length_dropWhile_le less_Suc_eq_le)

definition lstrip :: "(nat \<Rightarrow> bool) \<Rightarrow> ustring \<Rightarrow> ustring" where
  "lstrip p s = dropWhile p s"

definition rstrip :: "(nat \<Rightarrow> bool) \<Rightarrow> ustring \<Rightarrow> ustring" where
  "rstrip p s = rev (dropWhile p (rev s))"

definition strip :: "ustring \<Rightarrow> ustring" where
  "strip s = rstrip isspace (lstrip isspace s)"

text \<open>\<open>s.split(sep)\<close> for a separator of one character: never an empty list.\<close>

fun split_on :: "nat \<Rightarrow> ustring \<Rightarrow> ustring list" where
  "split_on sep [] = [[]]"
| "split_on sep (c # cs) =
     (if c = sep then [] # split_on sep cs
      else (case split_on sep cs of
              [] \<Rightarrow> [[c]]
            | p # ps \<Rightarrow> (c # p) # ps))"

text \<open>
  \<open>s.replace(old, new)\<close> for a non-empty \<open>old\<close> (the source has no other): the
  occurrences are taken from the left and do not overlap.
\<close>

function replace :: "ustring \<Rightarrow> ustring \<Rightarrow> ustring \<Rightarrow> ustring" where
  "replace old new [] = []"
| "replace old new (c # cs) =
     (if old \<noteq> [] \<and> take (length old) (c # cs) = old
      then new @ replace old new (drop (length old) (c # cs))
      else c # replace old new cs)"
  by pat_completeness auto
termination
  by (relation "measure (\<lambda>(old, new, s). length s)") auto

fun join :: "ustring \<Rightarrow> ustring list \<Rightarrow> ustring" where
  "join sep [] = []"
| "join sep [x] = x"
| "join sep (x # y # ys) = x @ sep @ join sep (y # ys)"

definition startswith :: "ustring \<Rightarrow> ustring \<Rightarrow> bool" where
  "startswith s p \<longleftrightarrow> take (length p) s = p"

subsection \<open>\<open>collapse_spaces\<close>\<close>

text \<open>
  \<^verbatim>\<open>
  def collapse_spaces(text):
      if not text:
          return ""
      return re.sub(r"\s+", " ", text).strip()
  \<close>
  \<open>not text\<close> holds of \<open>None\<close> and of the empty string.
\<close>

definition collapse_spaces :: "ustring option \<Rightarrow> ustring" where
  "collapse_spaces text =
     (case text of
        None \<Rightarrow> []
      | Some t \<Rightarrow> if t = [] then [] else strip (re_sub_runs isspace [32] t))"

text \<open>
  The words of a string: its maximal runs of characters that are not white space. They
  say what collapsing keeps.
\<close>

function ws_words :: "ustring \<Rightarrow> ustring list" where
  "ws_words s =
     (case dropWhile isspace s of
        [] \<Rightarrow> []
      | c # cs \<Rightarrow>
          (c # takeWhile (\<lambda>x. \<not> isspace x) cs) # ws_words (dropWhile (\<lambda>x. \<not> isspace x) cs))"
  by pat_completeness auto
termination
proof (relation "measure length", goal_cases)
  case 1
  show ?case by simp
next
  case (2 s c cs)
  have "length (dropWhile (\<lambda>x. \<not> isspace x) cs) \<le> length cs"
    by (rule length_dropWhile_le)
  moreover have "length (dropWhile isspace s) \<le> length s"
    by (rule length_dropWhile_le)
  ultimately show ?case using 2 by simp
qed

fun no_double_space :: "ustring \<Rightarrow> bool" where
  "no_double_space (a # b # cs) = (\<not> (a = 32 \<and> b = 32) \<and> no_double_space (b # cs))"
| "no_double_space cs = True"

section \<open>Python integers\<close>

subsection \<open>\<open>int(str)\<close>\<close>

text \<open>
  \<open>int(s)\<close> in base ten: white space around the number, an optional sign, then decimal
  digits of any script, single underscores allowed between digits. Anything else raises
  \<open>ValueError\<close>, which is \<open>None\<close> here. The white space that \<open>int\<close> skips is the ASCII
  white space of C and the non-ASCII Unicode white space (the code points 28 to 31 are
  white space for \<open>strip\<close> but not for \<open>int\<close>). CPython refuses by default a number of
  more than 4300 digits, with \<open>ValueError\<close> too.
\<close>

definition int_space :: "nat \<Rightarrow> bool" where
  "int_space c \<longleftrightarrow> (9 \<le> c \<and> c \<le> 13) \<or> c = 32 \<or> (128 \<le> c \<and> isspace c)"

definition int_max_str_digits :: nat where
  "int_max_str_digits = 4300"

definition digit_or_underscore :: "nat \<Rightarrow> bool" where
  "digit_or_underscore c \<longleftrightarrow> isdecimal c \<or> c = 95"

fun no_double_underscore :: "ustring \<Rightarrow> bool" where
  "no_double_underscore (a # b # cs) =
     (\<not> (a = 95 \<and> b = 95) \<and> no_double_underscore (b # cs))"
| "no_double_underscore cs = True"

definition digit_of :: "nat \<Rightarrow> nat" where
  "digit_of c = (case decimal_value c of None \<Rightarrow> 0 | Some d \<Rightarrow> d)"

definition digits_value :: "ustring \<Rightarrow> nat" where
  "digits_value ds = foldl (\<lambda>a c. 10 * a + digit_of c) 0 ds"

definition py_int :: "ustring \<Rightarrow> int option" where
  "py_int s =
     (let s1 = dropWhile int_space s;
          neg = (s1 \<noteq> [] \<and> hd s1 = 45);
          s2 = (if s1 \<noteq> [] \<and> (hd s1 = 43 \<or> hd s1 = 45) then tl s1 else s1);
          body = takeWhile digit_or_underscore s2;
          rest = dropWhile digit_or_underscore s2;
          ds = filter (\<lambda>c. c \<noteq> 95) body
      in if body = [] \<or> hd body = 95 \<or> last body = 95 \<or> \<not> no_double_underscore body
            \<or> \<not> list_all int_space rest \<or> int_max_str_digits < length ds
         then None
         else Some (if neg then - int (digits_value ds) else int (digits_value ds)))"

subsection \<open>Formatting with \<open>{:0wd}\<close>\<close>

fun str_nat :: "nat \<Rightarrow> ustring" where
  "str_nat n = (if n < 10 then [48 + n] else str_nat (n div 10) @ [48 + n mod 10])"

declare str_nat.simps [simp del]

definition zero_pad :: "nat \<Rightarrow> ustring \<Rightarrow> ustring" where
  "zero_pad w s = replicate (w - length s) 48 @ s"

definition format_d :: "nat \<Rightarrow> int \<Rightarrow> ustring" where
  "format_d w n =
     (if n < 0 then 45 # zero_pad (w - 1) (str_nat (nat (- n)))
      else zero_pad w (str_nat (nat n)))"

section \<open>\<open>convert_pubdate\<close>\<close>

text \<open>
  \<^verbatim>\<open>
  def convert_pubdate(raw_pubdate):
      if not raw_pubdate:
          return None
      raw = raw_pubdate.strip()
      parts = raw.split("-")
      try:
          year = int(parts[0])
      except (ValueError, IndexError):
          return None
      month = 1
      day = 1
      if len(parts) >= 2:
          try: month = int(parts[1])
          except ValueError: month = 1
      if len(parts) == 3:
          try: day = int(parts[2])
          except ValueError: day = 1
      month = max(1, min(month, 12))
      day = max(1, min(day, 31))
      return f"{year:04d}-{month:02d}-{day:02d}"
  \<close>
\<close>

definition int_or :: "int \<Rightarrow> ustring \<Rightarrow> int" where
  "int_or dflt s = (case py_int s of None \<Rightarrow> dflt | Some n \<Rightarrow> n)"

definition pubdate_parts :: "ustring \<Rightarrow> ustring list" where
  "pubdate_parts raw_pubdate = split_on 45 (strip raw_pubdate)"

definition convert_pubdate :: "ustring option \<Rightarrow> ustring option" where
  "convert_pubdate raw_pubdate =
     (case raw_pubdate of
        None \<Rightarrow> None
      | Some r \<Rightarrow>
          if r = [] then None
          else
            (let parts = pubdate_parts r in
             case (case parts of [] \<Rightarrow> None | p0 # _ \<Rightarrow> py_int p0) of
               None \<Rightarrow> None
             | Some year \<Rightarrow>
                 (let month = (if 2 \<le> length parts then int_or 1 (parts ! 1) else 1);
                      day = (if length parts = 3 then int_or 1 (parts ! 2) else 1);
                      month' = max 1 (min month 12);
                      day' = max 1 (min day 31)
                  in Some (format_d 4 year @ [45] @ format_d 2 month' @ [45]
                           @ format_d 2 day'))))"

section \<open>The book record and the Notion properties\<close>

text \<open>
  The book is a dictionary; \<open>build_notion_properties\<close> reads every key with \<open>get\<close>, so
  every key may be missing or \<open>None\<close>: every field is optional.
\<close>

record book =
  title :: "ustring option"
  publisher :: "ustring option"
  author :: "ustring list option"
  translator :: "ustring list option"
  pubdate :: "ustring option"
  producer :: "ustring option"
  binding :: "ustring option"
  pages :: "ustring option"

text \<open>
  A property value of the Notion API. The elements of a title or a rich text are the
  \<open>content\<close> strings of its text objects; \<open>None\<close> is JSON \<open>null\<close>.
\<close>

datatype notion_property =
    TitleProp "ustring list"
  | RichTextProp "ustring list"
  | DateProp "ustring option"
  | NumberProp "int option"
  | SelectProp "ustring option"

type_synonym properties = "(ustring \<times> notion_property) list"

definition rich_text_property :: "ustring option \<Rightarrow> notion_property" where
  "rich_text_property text =
     (case text of
        None \<Rightarrow> RichTextProp []
      | Some t \<Rightarrow> if t = [] then RichTextProp [] else RichTextProp [t])"

definition title_property :: "ustring option \<Rightarrow> notion_property" where
  "title_property text =
     (case text of
        None \<Rightarrow> TitleProp [[]]
      | Some t \<Rightarrow> if t = [] then TitleProp [[]] else TitleProp [t])"

definition date_property :: "ustring option \<Rightarrow> notion_property" where
  "date_property date_str =
     (case date_str of
        None \<Rightarrow> DateProp None
      | Some d \<Rightarrow> if d = [] then DateProp None else DateProp (Some d))"

definition number_property :: "ustring option \<Rightarrow> notion_property" where
  "number_property v =
     (case v of
        None \<Rightarrow> NumberProp None
      | Some s \<Rightarrow> if s = [] then NumberProp None else NumberProp (py_int s))"

definition select_property :: "ustring option \<Rightarrow> notion_property" where
  "select_property v =
     (case v of
        None \<Rightarrow> SelectProp None
      | Some s \<Rightarrow> if s = [] then SelectProp None else SelectProp (Some s))"

text \<open>The eight column names, by code point.\<close>

definition key_title :: ustring where
  "key_title = [20070, 21517]"

definition key_publisher :: ustring where
  "key_publisher = [20986, 29256, 31038]"

definition key_author :: ustring where
  "key_author = [20316, 32773]"

definition key_translator :: ustring where
  "key_translator = [35793, 32773]"

definition key_pubdate :: ustring where
  "key_pubdate = [20986, 29256, 26085, 26399]"

definition key_producer :: ustring where
  "key_producer = [20986, 21697, 26041]"

definition key_binding :: ustring where
  "key_binding = [23553, 38754, 31867, 22411]"

definition key_pages :: ustring where
  "key_pages = [39029, 25968]"

text \<open>\<open>x or d\<close> on an optional string or list: \<open>d\<close> when \<open>x\<close> is \<open>None\<close> or empty.\<close>

definition or_else :: "'a list option \<Rightarrow> 'a list \<Rightarrow> 'a list" where
  "or_else x d = (case x of None \<Rightarrow> d | Some v \<Rightarrow> if v = [] then d else v)"

text \<open>
  \<^verbatim>\<open>
  def build_notion_properties(book):
      title = book.get("title") or ""
      authors = book.get("author") or []
      translators = book.get("translator") or []
      author_str = collapse_spaces(", ".join(authors)) if authors else ""
      translator_str = collapse_spaces(", ".join(translators)) if translators else ""
      publisher = collapse_spaces(book.get("publisher") or "")
      pubdate_raw = book.get("pubdate")
      pubdate = convert_pubdate(pubdate_raw)
      pages_raw = book.get("pages")
      pages_str = str(pages_raw).strip() if pages_raw is not None else ""
      properties = { ... eight keys ... }
      return properties
  \<close>
  A Python dictionary keeps the order of insertion: the result is an association list.
\<close>

definition build_notion_properties :: "book \<Rightarrow> properties" where
  "build_notion_properties b =
     (let title' = or_else (title b) [];
          authors = or_else (author b) [];
          translators = or_else (translator b) [];
          author_str =
            (if authors \<noteq> [] then collapse_spaces (Some (join (ustr '', '') authors)) else []);
          translator_str =
            (if translators \<noteq> [] then collapse_spaces (Some (join (ustr '', '') translators))
             else []);
          publisher' = collapse_spaces (Some (or_else (publisher b) []));
          pubdate' = convert_pubdate (pubdate b);
          pages_str = (case pages b of None \<Rightarrow> [] | Some p \<Rightarrow> strip p)
      in [(key_title, title_property (Some title')),
          (key_publisher, rich_text_property (Some publisher')),
          (key_author, rich_text_property (Some author_str)),
          (key_translator, rich_text_property (Some translator_str)),
          (key_pubdate, date_property pubdate'),
          (key_producer, rich_text_property (Some (or_else (producer b) []))),
          (key_binding, select_property (Some (or_else (binding b) []))),
          (key_pages, number_property (Some pages_str))])"

section \<open>Errors and network events\<close>

text \<open>
  Every failure of the source is a \<open>RuntimeError\<close> with its own message, or an exception
  of the HTTP library that the source lets through. One constructor stands for each:
  the spec's NotFoundError is \<open>DoubanNotFound\<close>, its TransportError
  \<open>DoubanNetworkError\<close>, its UnexpectedStatusError \<open>DoubanBadStatus\<close>, its
  PageStructureError \<open>TitleTagMissing\<close> and \<open>InfoDivMissing\<close>, its InvalidInputError
  \<open>IsbnEmpty\<close>, its AuthError \<open>TokenEmpty\<close>, its ConfigError \<open>DatabaseIdEmpty\<close>, its
  TimeoutError \<open>NotionTimeout\<close> and its RemoteRejectionError \<open>NotionBadStatus\<close>.
\<close>

datatype error =
    DoubanNetworkError
  | DoubanNotFound ustring
  | DoubanBadStatus int ustring
  | TitleTagMissing
  | InfoDivMissing
  | IsbnEmpty
  | TokenEmpty
  | DatabaseIdEmpty
  | NotionTimeout "ustring option"
  | NotionBadStatus int ustring
  | TransportException ustring
  | JSONDecodeError

text \<open>What the program does to the outside world, in order.\<close>

datatype event =
    HttpGet ustring
  | HttpPost ustring ustring properties
  | Warn nat
  | Sleep nat

section \<open>\<open>fetch_book_from_douban\<close>\<close>

text \<open>
  The page as the HTML parser gives it. A sibling of a label is a tag, with its name, its
  \<open>get_text(strip=True)\<close> and its \<open>str\<close>, or a string, which has no name.
\<close>

datatype node =
    Tag ustring ustring ustring
  | NavigableString ustring

fun node_name :: "node \<Rightarrow> ustring option" where
  "node_name (Tag n t s) = Some n"
| "node_name (NavigableString s) = None"

fun node_text :: "node \<Rightarrow> ustring" where
  "node_text (Tag n t s) = t"
| "node_text (NavigableString s) = strip s"

fun node_str :: "node \<Rightarrow> ustring" where
  "node_str (Tag n t s) = s"
| "node_str (NavigableString s) = s"

record label =
  label_text :: ustring
  next_siblings :: "node list"

record page =
  title_tag :: "ustring option"
  info_div :: "label list option"

datatype get_outcome =
    RequestException
  | Response int ustring

fun collect_value_parts :: "node list \<Rightarrow> ustring list" where
  "collect_value_parts [] = []"
| "collect_value_parts (sibling # rest) =
     (if node_name sibling = Some (ustr ''br'') then []
      else if node_name sibling = Some (ustr ''a'') then
        (let text = node_text sibling
         in if text \<noteq> [] then text # collect_value_parts rest
            else collect_value_parts rest)
      else
        (let text = strip (node_str sibling)
         in if text \<noteq> [] then
              (let cleaned = strip (replace (ustr ''&nbsp;'') [32] text)
               in if cleaned \<noteq> [] \<and> cleaned \<noteq> [47] then cleaned # collect_value_parts rest
                  else collect_value_parts rest)
            else collect_value_parts rest))"

definition is_colon :: "nat \<Rightarrow> bool" where
  "is_colon c \<longleftrightarrow> c = 65306 \<or> c = 58"

definition raw_value_of :: "node list \<Rightarrow> ustring" where
  "raw_value_of siblings =
     strip (lstrip is_colon (strip (join [32] (collect_value_parts siblings))))"

text \<open>
  \<^verbatim>\<open>
  cleaned = raw_value.replace(" / ", "/")
  authors = [collapse_spaces(v) for v in cleaned.split("/") if v.strip()]
  \<close>
  The same expression serves the authors and the translators.
\<close>

definition split_names :: "ustring \<Rightarrow> ustring list" where
  "split_names raw_value =
     (let cleaned = replace [32, 47, 32] [47] raw_value
      in map (\<lambda>v. collapse_spaces (Some v))
           (filter (\<lambda>v. strip v \<noteq> []) (split_on 47 cleaned)))"

text \<open>
  \<^verbatim>\<open>
  pages_text = collapse_spaces(raw_value)
  pages = re.sub(r"\D+", "", pages_text)
  \<close>
\<close>

definition extract_pages :: "ustring \<Rightarrow> ustring" where
  "extract_pages raw_value =
     re_sub_runs (\<lambda>c. \<not> isdecimal c) [] (collapse_spaces (Some raw_value))"

definition process_label :: "label \<Rightarrow> book \<Rightarrow> book" where
  "process_label span b =
     (let lbl = rstrip is_colon (label_text span);
          raw_value = raw_value_of (next_siblings span)
      in if raw_value = [] then b
         else if startswith lbl [20316, 32773] then b\<lparr>author := Some (split_names raw_value)\<rparr>
         else if startswith lbl [35793, 32773] then
           b\<lparr>translator := Some (split_names raw_value)\<rparr>
         else if startswith lbl [20986, 29256, 31038] then
           b\<lparr>publisher := Some (collapse_spaces (Some raw_value))\<rparr>
         else if startswith lbl [20986, 29256, 24180] then b\<lparr>pubdate := Some raw_value\<rparr>
         else if startswith lbl [20986, 21697, 26041] then
           b\<lparr>producer := Some (collapse_spaces (Some raw_value))\<rparr>
         else if startswith lbl [35013, 24103] then
           b\<lparr>binding := Some (collapse_spaces (Some raw_value))\<rparr>
         else if startswith lbl [39029, 25968] then b\<lparr>pages := Some (extract_pages raw_value)\<rparr>
         else b)"

definition douban_url :: "ustring \<Rightarrow> ustring" where
  "douban_url isbn = ustr ''https://book.douban.com/isbn/'' @ isbn @ ustr ''/''"

text \<open>
  The two things outside the program are parameters: \<open>http_get\<close>, the outcome of the
  request for a URL, and \<open>parse\<close>, what the HTML parser finds in a body.
\<close>

definition fetch_book_from_douban ::
  "(ustring \<Rightarrow> get_outcome) \<Rightarrow> (ustring \<Rightarrow> page) \<Rightarrow> ustring \<Rightarrow> error + book" where
  "fetch_book_from_douban http_get parse isbn =
     (let url = douban_url isbn in
      case http_get url of
        RequestException \<Rightarrow> Inl DoubanNetworkError
      | Response status_code text \<Rightarrow>
          if status_code = 404 then Inl (DoubanNotFound url)
          else if status_code \<noteq> 200 then Inl (DoubanBadStatus status_code (take 200 text))
          else
            (let soup = parse text in
             case title_tag soup of
               None \<Rightarrow> Inl TitleTagMissing
             | Some title_text \<Rightarrow>
                 (case info_div soup of
                    None \<Rightarrow> Inl InfoDivMissing
                  | Some labels \<Rightarrow>
                      Inr (foldl (\<lambda>b span. process_label span b)
                             \<lparr>title = Some (collapse_spaces (Some title_text)),
                              publisher = Some [], author = Some [], translator = Some [],
                              pubdate = None, producer = None, binding = None, pages = None\<rparr>
                             labels))))"

section \<open>\<open>create_notion_page\<close>\<close>

text \<open>
  The outcome of one POST: a read timeout, another exception of the HTTP library, or a
  response with its status, its text and what \<open>resp.json()\<close> gives (\<open>None\<close> when the
  body is not JSON). \<open>post n\<close> is the outcome of the request number \<open>n\<close>, from 0.
\<close>

datatype 'j post_outcome =
    ReadTimeout ustring
  | OtherException ustring
  | PostResponse int ustring "'j option"

definition notion_headers :: "ustring \<Rightarrow> error + (ustring \<times> ustring) list" where
  "notion_headers token =
     (if token = [] then Inl TokenEmpty
      else Inr [(ustr ''Authorization'', ustr ''Bearer '' @ token),
                (ustr ''Notion-Version'', ustr ''2022-06-28''),
                (ustr ''Content-Type'', ustr ''application/json'')])"

text \<open>
  The loop \<open>for attempt in range(3)\<close> with its \<open>else\<close>: the list holds the attempts still
  to make. The headers are built inside the \<open>try\<close>, before the request; their
  \<open>RuntimeError\<close> is not a \<open>ReadTimeout\<close> and leaves the loop. The result is the
  response, or the error, with the events so far.
\<close>

fun post_loop ::
  "(nat \<Rightarrow> 'j post_outcome) \<Rightarrow> ustring \<Rightarrow> ustring \<Rightarrow> properties \<Rightarrow> nat list
   \<Rightarrow> ustring option \<Rightarrow> event list
   \<Rightarrow> (error + int \<times> ustring \<times> 'j option) \<times> event list" where
  "post_loop post token database_id props [] last_error log =
     (Inl (NotionTimeout last_error), log)"
| "post_loop post token database_id props (attempt # rest) last_error log =
     (case notion_headers token of
        Inl e \<Rightarrow> (Inl e, log)
      | Inr headers \<Rightarrow>
          (case post attempt of
             PostResponse status_code text js \<Rightarrow>
               (Inr (status_code, text, js), log @ [HttpPost token database_id props])
           | ReadTimeout e \<Rightarrow>
               post_loop post token database_id props rest (Some e)
                 (log @ [HttpPost token database_id props, Warn (attempt + 1), Sleep 2])
           | OtherException e \<Rightarrow>
               (Inl (TransportException e), log @ [HttpPost token database_id props])))"

definition create_notion_page ::
  "(nat \<Rightarrow> 'j post_outcome) \<Rightarrow> ustring \<Rightarrow> ustring \<Rightarrow> properties
   \<Rightarrow> (error + 'j) \<times> event list" where
  "create_notion_page post token database_id props =
     (if database_id = [] then (Inl DatabaseIdEmpty, [])
      else
        (case post_loop post token database_id props [0, 1, 2] None [] of
           (Inl e, log) \<Rightarrow> (Inl e, log)
         | (Inr (status_code, text, js), log) \<Rightarrow>
             if status_code \<noteq> 200 then (Inl (NotionBadStatus status_code (take 500 text)), log)
             else (case js of None \<Rightarrow> (Inl JSONDecodeError, log) | Some j \<Rightarrow> (Inr j, log))))"

definition posts :: "event list \<Rightarrow> nat" where
  "posts log = length (filter (\<lambda>e. case e of HttpPost t d p \<Rightarrow> True | _ \<Rightarrow> False) log)"

definition sleeps :: "event list \<Rightarrow> nat list" where
  "sleeps log = concat (map (\<lambda>e. case e of Sleep n \<Rightarrow> [n] | _ \<Rightarrow> []) log)"

section \<open>\<open>run_import\<close>\<close>

record 'j import_result =
  res_book :: book
  res_properties :: properties
  res_page :: 'j

definition run_import ::
  "(ustring \<Rightarrow> get_outcome) \<Rightarrow> (ustring \<Rightarrow> page) \<Rightarrow> (nat \<Rightarrow> 'j post_outcome)
   \<Rightarrow> ustring \<Rightarrow> ustring \<Rightarrow> ustring \<Rightarrow> (error + 'j import_result) \<times> event list" where
  "run_import http_get parse post token database_id isbn =
     (if isbn = [] then (Inl IsbnEmpty, [])
      else
        (case fetch_book_from_douban http_get parse isbn of
           Inl e \<Rightarrow> (Inl e, [HttpGet (douban_url isbn)])
         | Inr b \<Rightarrow>
             (let props = build_notion_properties b in
              case create_notion_page post token database_id props of
                (Inl e, log) \<Rightarrow> (Inl e, HttpGet (douban_url isbn) # log)
              | (Inr pg, log) \<Rightarrow>
                  (Inr \<lparr>res_book = b, res_properties = props, res_page = pg\<rparr>,
                   HttpGet (douban_url isbn) # log))))"

text \<open>The book with every field absent.\<close>

definition empty_book :: book where
  "empty_book = \<lparr>title = None, publisher = None, author = None, translator = None,
     pubdate = None, producer = None, binding = None, pages = None\<rparr>"

text \<open>No author and no translator of the book is the empty string.\<close>

definition names_nonempty :: "book \<Rightarrow> bool" where
  "names_nonempty b \<longleftrightarrow>
     (\<exists>as. author b = Some as \<and> (\<forall>n\<in>set as. n \<noteq> []))
     \<and> (\<exists>ts. translator b = Some ts \<and> (\<forall>n\<in>set ts. n \<noteq> []))"

section \<open>Evaluation\<close>

text \<open>
  The definitions that \<open>simp\<close> unfolds to evaluate a function at a concrete string.
\<close>

lemmas str_defs = ustr_def isspace_def strip_def lstrip_def rstrip_def
lemmas int_defs = int_space_def digit_or_underscore_def isdecimal_def decimal_value_def
  decimal_zeros_def int_max_str_digits_def digits_value_def digit_of_def
lemmas date_defs = format_d_def zero_pad_def str_nat.simps

section \<open>The date conversion\<close>

lemma split_on_not_Nil: "split_on sep s \<noteq> []"
  by (induction s) (auto split: list.splits)

lemma str_nat_1: "n < 10 \<Longrightarrow> str_nat n = [48 + n]"
  by (simp add: str_nat.simps)

lemma str_nat_2: "10 \<le> n \<Longrightarrow> n < 100 \<Longrightarrow> str_nat n = [48 + n div 10, 48 + n mod 10]"
  by (subst str_nat.simps) (simp add: str_nat_1)

lemma str_nat_3:
  "100 \<le> n \<Longrightarrow> n < 1000 \<Longrightarrow>
   str_nat n = [48 + n div 100, 48 + n div 10 mod 10, 48 + n mod 10]"
  by (subst str_nat.simps) (simp add: str_nat_2 div_mult2_eq [symmetric])

lemma str_nat_4:
  "1000 \<le> n \<Longrightarrow> n < 10000 \<Longrightarrow>
   str_nat n = [48 + n div 1000, 48 + n div 100 mod 10, 48 + n div 10 mod 10, 48 + n mod 10]"
  by (subst str_nat.simps) (simp add: str_nat_3 div_mult2_eq [symmetric])

lemma replicate_2: "replicate 2 x = [x, x]"
  by (simp add: numeral_2_eq_2)

lemma replicate_3: "replicate 3 x = [x, x, x]"
  by (simp add: numeral_3_eq_3)

lemma format_d_2:
  assumes "0 \<le> m" "m < 100"
  shows "format_d 2 m = [48 + nat m div 10, 48 + nat m mod 10]"
proof (cases "nat m < 10")
  case True
  then show ?thesis using assms by (simp add: format_d_def zero_pad_def str_nat_1)
next
  case False
  then show ?thesis using assms by (simp add: format_d_def zero_pad_def str_nat_2)
qed

lemma format_d_4:
  assumes "0 \<le> y" "y < 10000"
  shows "format_d 4 y =
    [48 + nat y div 1000, 48 + nat y div 100 mod 10, 48 + nat y div 10 mod 10, 48 + nat y mod 10]"
proof -
  consider "nat y < 10" | "10 \<le> nat y" "nat y < 100" | "100 \<le> nat y" "nat y < 1000"
    | "1000 \<le> nat y" "nat y < 10000"
    using assms by linarith
  then show ?thesis
  proof cases
    case 1
    then show ?thesis using assms by (simp add: format_d_def zero_pad_def str_nat_1 replicate_3)
  next
    case 2
    then show ?thesis using assms
      by (simp add: format_d_def zero_pad_def str_nat_2 replicate_2)
  next
    case 3
    then show ?thesis using assms
      by (simp add: format_d_def zero_pad_def str_nat_3)
  next
    case 4
    then show ?thesis using assms by (simp add: format_d_def zero_pad_def str_nat_4)
  qed
qed

lemma convert_pubdate_Some:
  assumes "r \<noteq> []" "py_int (hd (pubdate_parts r)) = Some y"
  shows "convert_pubdate (Some r) =
    Some (format_d 4 y @ [45]
          @ format_d 2 (max 1 (min (if 2 \<le> length (pubdate_parts r)
                                     then int_or 1 (pubdate_parts r ! 1) else 1) 12)) @ [45]
          @ format_d 2 (max 1 (min (if length (pubdate_parts r) = 3
                                     then int_or 1 (pubdate_parts r ! 2) else 1) 31)))"
proof -
  obtain p0 ps where "pubdate_parts r = p0 # ps"
    using split_on_not_Nil [of 45 "strip r"] by (cases "pubdate_parts r") (auto simp: pubdate_parts_def)
  then show ?thesis using assms
    unfolding convert_pubdate_def Let_def by simp
qed

lemma convert_pubdate_None:
  assumes "py_int (hd (pubdate_parts r)) = None"
  shows "convert_pubdate (Some r) = None"
proof -
  obtain p0 ps where "pubdate_parts r = p0 # ps"
    using split_on_not_Nil [of 45 "strip r"] by (cases "pubdate_parts r") (auto simp: pubdate_parts_def)
  then show ?thesis using assms
    unfolding convert_pubdate_def Let_def by simp
qed

lemma convert_pubdate_2018_8_15:
  "convert_pubdate (Some (ustr ''2018-8-15'')) = Some (ustr ''2018-08-15'')"
  unfolding convert_pubdate_def pubdate_parts_def int_or_def py_int_def Let_def
  by (simp add: str_defs int_defs date_defs)

lemma py_int_2018: "py_int (ustr ''2018'') = Some 2018"
  unfolding py_int_def Let_def by (simp add: str_defs int_defs)

lemma py_int_8: "py_int (ustr ''8'') = Some 8"
  unfolding py_int_def Let_def by (simp add: str_defs int_defs)

text \<open>
  What the code does with an input of exactly three segments whose first segment is an
  integer: the third segment is parsed as the day (1 when it does not parse) and clamped
  into 1..31, as the second is parsed as the month and clamped into 1..12.
\<close>

lemma convert_pubdate_three_segments:
  assumes "length (pubdate_parts r) = 3" "py_int (pubdate_parts r ! 0) = Some y"
  shows "convert_pubdate (Some r) =
        Some (format_d 4 y @ [45]
              @ format_d 2 (max 1 (min (int_or 1 (pubdate_parts r ! 1)) 12)) @ [45]
              @ format_d 2 (max 1 (min (int_or 1 (pubdate_parts r ! 2)) 31)))"
proof -
  have "r \<noteq> []"
  proof
    assume "r = []"
    then have "pubdate_parts r = [[]]" by (simp add: pubdate_parts_def str_defs)
    with assms(1) show False by simp
  qed
  moreover have "hd (pubdate_parts r) = pubdate_parts r ! 0"
    using assms(1) by (cases "pubdate_parts r") auto
  ultimately show ?thesis
    using assms convert_pubdate_Some [of r y] by simp
qed

text \<open>
  Claim C1. The docstring of \<open>convert_pubdate\<close> gives as its rule that the day is not
  trusted, even when the catalogue writes one, and the claim says the same: the day
  segment of a three-segment input is ignored and the output has the day 01. The code
  does not do that. For 2018-8-15 it keeps the day and returns 2018-08-15, which is not
  the 2018-08-01 of the claim.
\<close>

theorem convert_pubdate_keeps_day:
  "convert_pubdate (Some (ustr ''2018-8-15'')) = Some (ustr ''2018-08-15'')
   \<and> convert_pubdate (Some (ustr ''2018-8-15'')) \<noteq> Some (ustr ''2018-08-01'')"
proof
  show "convert_pubdate (Some (ustr ''2018-8-15'')) = Some (ustr ''2018-08-15'')"
    by (rule convert_pubdate_2018_8_15)
  show "convert_pubdate (Some (ustr ''2018-8-15'')) \<noteq> Some (ustr ''2018-08-01'')"
    using convert_pubdate_2018_8_15 by (simp add: ustr_def)
qed

lemma convert_pubdate_2018:
  "convert_pubdate (Some (ustr ''2018'')) = Some (ustr ''2018-01-01'')"
  unfolding convert_pubdate_def pubdate_parts_def int_or_def py_int_def Let_def
  by (simp add: str_defs int_defs date_defs)

lemma convert_pubdate_2018_8:
  "convert_pubdate (Some (ustr ''2018-8'')) = Some (ustr ''2018-08-01'')"
  unfolding convert_pubdate_def pubdate_parts_def int_or_def py_int_def Let_def
  by (simp add: str_defs int_defs date_defs)

lemma convert_pubdate_2018_13:
  "convert_pubdate (Some (ustr ''2018-13'')) = Some (ustr ''2018-12-01'')"
  unfolding convert_pubdate_def pubdate_parts_def int_or_def py_int_def Let_def
  by (simp add: str_defs int_defs date_defs)

lemma pubdate_parts_2018_8: "pubdate_parts (ustr ''2018-8'') = [ustr ''2018'', ustr ''8'']"
  unfolding pubdate_parts_def by (simp add: str_defs)

lemma pubdate_parts_abc: "pubdate_parts (ustr ''abc'') = [ustr ''abc'']"
  unfolding pubdate_parts_def by (simp add: str_defs)

lemma py_int_abc: "py_int (ustr ''abc'') = None"
  unfolding py_int_def Let_def by (simp add: str_defs int_defs)

lemma convert_pubdate_absent: "convert_pubdate None = None \<and> convert_pubdate (Some []) = None"
  by (simp add: convert_pubdate_def)

lemma clamp_bounds: "(1::int) \<le> max 1 (min x 12) \<and> max 1 (min x 12) \<le> 12
  \<and> (1::int) \<le> max 1 (min z 31) \<and> max 1 (min z 31) \<le> 31"
  by (simp add: max_def min_def)

lemma format_date_digits:
  assumes "0 \<le> y" "y < 10000" "1 \<le> m" "m \<le> 12" "1 \<le> d" "d \<le> 31"
  shows "format_d 4 y @ [45] @ format_d 2 m @ [45] @ format_d 2 d =
     [48 + nat y div 1000, 48 + nat y div 100 mod 10, 48 + nat y div 10 mod 10,
      48 + nat y mod 10, 45, 48 + nat m div 10, 48 + nat m mod 10, 45,
      48 + nat d div 10, 48 + nat d mod 10]"
  using assms by (simp add: format_d_4 format_d_2)

text \<open>
  Claim C2. Absent and empty input give absent. When the first segment of the stripped
  input is not an integer the result is absent. Otherwise the result is the year, the
  month and the day, each written by \<open>format_d\<close> and joined by hyphens: the month is
  1 when the second segment is missing or is not an integer, and is clamped into 1..12;
  the day is 1 unless there are exactly three segments and the third is an integer, and is
  clamped into 1..31. For a year below 10000 the result is the ten characters
  YYYY-MM-DD, padded with zeros. The three examples of the spec hold.
\<close>

theorem convert_pubdate_spec:
  "convert_pubdate None = None
   \<and> convert_pubdate (Some []) = None
   \<and> (py_int (hd (pubdate_parts r0)) = None \<longrightarrow> convert_pubdate (Some r0) = None)
   \<and> (r \<noteq> [] \<and> py_int (hd (pubdate_parts r)) = Some y \<longrightarrow>
        (\<exists>m d. convert_pubdate (Some r) =
                 Some (format_d 4 y @ [45] @ format_d 2 m @ [45] @ format_d 2 d)
           \<and> 1 \<le> m \<and> m \<le> 12 \<and> 1 \<le> d \<and> d \<le> 31
           \<and> (length (pubdate_parts r) < 2 \<or> py_int (pubdate_parts r ! 1) = None \<longrightarrow> m = 1)
           \<and> (\<forall>k. 2 \<le> length (pubdate_parts r) \<and> py_int (pubdate_parts r ! 1) = Some k
                  \<longrightarrow> m = max 1 (min k 12))
           \<and> (length (pubdate_parts r) \<noteq> 3 \<or> py_int (pubdate_parts r ! 2) = None \<longrightarrow> d = 1)
           \<and> (\<forall>k. length (pubdate_parts r) = 3 \<and> py_int (pubdate_parts r ! 2) = Some k
                  \<longrightarrow> d = max 1 (min k 31))))
   \<and> (0 \<le> y' \<and> y' < 10000 \<and> 1 \<le> m' \<and> m' \<le> 12 \<and> 1 \<le> d' \<and> d' \<le> 31 \<longrightarrow>
        format_d 4 y' @ [45] @ format_d 2 m' @ [45] @ format_d 2 d' =
          [48 + nat y' div 1000, 48 + nat y' div 100 mod 10, 48 + nat y' div 10 mod 10,
           48 + nat y' mod 10, 45, 48 + nat m' div 10, 48 + nat m' mod 10, 45,
           48 + nat d' div 10, 48 + nat d' mod 10])
   \<and> convert_pubdate (Some (ustr ''2018'')) = Some (ustr ''2018-01-01'')
   \<and> convert_pubdate (Some (ustr ''2018-8'')) = Some (ustr ''2018-08-01'')
   \<and> convert_pubdate (Some (ustr ''2018-13'')) = Some (ustr ''2018-12-01'')"
proof -
  have some: "\<exists>m d. convert_pubdate (Some r) =
                 Some (format_d 4 y @ [45] @ format_d 2 m @ [45] @ format_d 2 d)
           \<and> 1 \<le> m \<and> m \<le> 12 \<and> 1 \<le> d \<and> d \<le> 31
           \<and> (length (pubdate_parts r) < 2 \<or> py_int (pubdate_parts r ! 1) = None \<longrightarrow> m = 1)
           \<and> (\<forall>k. 2 \<le> length (pubdate_parts r) \<and> py_int (pubdate_parts r ! 1) = Some k
                  \<longrightarrow> m = max 1 (min k 12))
           \<and> (length (pubdate_parts r) \<noteq> 3 \<or> py_int (pubdate_parts r ! 2) = None \<longrightarrow> d = 1)
           \<and> (\<forall>k. length (pubdate_parts r) = 3 \<and> py_int (pubdate_parts r ! 2) = Some k
                  \<longrightarrow> d = max 1 (min k 31))"
    if a: "r \<noteq> [] \<and> py_int (hd (pubdate_parts r)) = Some y"
  proof -
    let ?mo = "if 2 \<le> length (pubdate_parts r) then int_or 1 (pubdate_parts r ! 1) else 1"
    let ?da = "if length (pubdate_parts r) = 3 then int_or 1 (pubdate_parts r ! 2) else 1"
    let ?m = "max 1 (min ?mo 12)"
    let ?d = "max 1 (min ?da 31)"
    have 1: "convert_pubdate (Some r) =
               Some (format_d 4 y @ [45] @ format_d 2 ?m @ [45] @ format_d 2 ?d)"
      using a convert_pubdate_Some [of r y] by simp
    have 2: "1 \<le> ?m \<and> ?m \<le> 12 \<and> 1 \<le> ?d \<and> ?d \<le> 31"
      by (rule clamp_bounds)
    have 3: "length (pubdate_parts r) < 2 \<or> py_int (pubdate_parts r ! 1) = None \<longrightarrow> ?m = 1"
      by (auto simp: int_or_def)
    have 4: "\<forall>k. 2 \<le> length (pubdate_parts r) \<and> py_int (pubdate_parts r ! 1) = Some k
                  \<longrightarrow> ?m = max 1 (min k 12)"
      by (auto simp: int_or_def)
    have 5: "length (pubdate_parts r) \<noteq> 3 \<or> py_int (pubdate_parts r ! 2) = None \<longrightarrow> ?d = 1"
      by (auto simp: int_or_def)
    have 6: "\<forall>k. length (pubdate_parts r) = 3 \<and> py_int (pubdate_parts r ! 2) = Some k
                  \<longrightarrow> ?d = max 1 (min k 31)"
      by (auto simp: int_or_def)
    show ?thesis
      apply (rule exI [of _ ?m])
      apply (rule exI [of _ ?d])
      using 1 2 3 4 5 6 by blast
  qed
  show ?thesis
    using some convert_pubdate_absent convert_pubdate_None [of r0]
      format_date_digits [of y' m' d']
      convert_pubdate_2018 convert_pubdate_2018_8 convert_pubdate_2018_13
    by blast
qed

theorem convert_pubdate_spec_witness:
  "py_int (hd (pubdate_parts (ustr ''abc''))) = None
   \<and> convert_pubdate (Some (ustr ''abc'')) = None
   \<and> ustr ''2018-8'' \<noteq> []
   \<and> py_int (hd (pubdate_parts (ustr ''2018-8''))) = Some 2018
   \<and> 2 \<le> length (pubdate_parts (ustr ''2018-8''))
   \<and> py_int (pubdate_parts (ustr ''2018-8'') ! 1) = Some 8
   \<and> length (pubdate_parts (ustr ''2018-8'')) \<noteq> 3
   \<and> convert_pubdate (Some (ustr ''2018-8'')) =
       Some (format_d 4 2018 @ [45] @ format_d 2 8 @ [45] @ format_d 2 1)
   \<and> format_d 4 2018 @ [45] @ format_d 2 8 @ [45] @ format_d 2 1 = ustr ''2018-08-01''"
proof -
  note t = convert_pubdate_spec [of "ustr ''abc''" "ustr ''2018-8''" 2018 2018 8 1]
  have h1: "py_int (hd (pubdate_parts (ustr ''abc''))) = None"
    by (simp add: pubdate_parts_abc py_int_abc)
  have h2: "ustr ''2018-8'' \<noteq> []" by (simp add: ustr_def)
  have h3: "py_int (hd (pubdate_parts (ustr ''2018-8''))) = Some 2018"
    by (simp add: pubdate_parts_2018_8 py_int_2018)
  have h4: "2 \<le> length (pubdate_parts (ustr ''2018-8''))
      \<and> py_int (pubdate_parts (ustr ''2018-8'') ! 1) = Some 8
      \<and> length (pubdate_parts (ustr ''2018-8'')) \<noteq> 3"
    by (simp add: pubdate_parts_2018_8 py_int_8)
  have c1: "convert_pubdate (Some (ustr ''abc'')) = None" using t h1 by blast
  obtain m d where md: "convert_pubdate (Some (ustr ''2018-8'')) =
       Some (format_d 4 2018 @ [45] @ format_d 2 m @ [45] @ format_d 2 d)"
     "m = max 1 (min 8 12)" "d = 1"
    using t h2 h3 h4 by blast
  have c2: "convert_pubdate (Some (ustr ''2018-8'')) =
       Some (format_d 4 2018 @ [45] @ format_d 2 8 @ [45] @ format_d 2 1)"
    using md by simp
  have "format_d 4 2018 @ [45] @ format_d 2 8 @ [45] @ format_d 2 1 =
          [48 + nat 2018 div 1000, 48 + nat 2018 div 100 mod 10, 48 + nat 2018 div 10 mod 10,
           48 + nat 2018 mod 10, 45, 48 + nat 8 div 10, 48 + nat 8 mod 10, 45,
           48 + nat 1 div 10, 48 + nat 1 mod 10]"
    using t by simp
  then have c3: "format_d 4 2018 @ [45] @ format_d 2 8 @ [45] @ format_d 2 1 = ustr ''2018-08-01''"
    by (simp add: ustr_def)
  show ?thesis using h1 h2 h3 h4 c1 c2 c3 by blast
qed

section \<open>The payload\<close>

lemmas key_defs = key_title_def key_publisher_def key_author_def key_translator_def
  key_pubdate_def key_producer_def key_binding_def key_pages_def

lemmas property_defs = title_property_def rich_text_property_def date_property_def
  number_property_def select_property_def

lemma collapse_spaces_Nil: "collapse_spaces (Some []) = []"
  by (simp add: collapse_spaces_def)

lemma or_else_None: "or_else None d = d"
  by (simp add: or_else_def)

lemma strip_Nil: "strip [] = []"
  by (simp add: strip_def lstrip_def rstrip_def)

lemma build_keys:
  "map fst (build_notion_properties b) =
     [key_title, key_publisher, key_author, key_translator, key_pubdate, key_producer,
      key_binding, key_pages]"
  unfolding build_notion_properties_def Let_def by simp

lemma keys_distinct:
  "distinct [key_title, key_publisher, key_author, key_translator, key_pubdate, key_producer,
      key_binding, key_pages]"
  by (simp add: key_defs)

lemma build_wrappers:
  "\<exists>t p a tr d pr bi n. map snd (build_notion_properties b) =
     [TitleProp [t], RichTextProp p, RichTextProp a, RichTextProp tr, DateProp d,
      RichTextProp pr, SelectProp bi, NumberProp n]"
  unfolding build_notion_properties_def Let_def
  by (simp add: property_defs split: option.splits)

lemma build_lookup:
  "map_of (build_notion_properties b) key_title = Some (title_property (Some (or_else (title b) [])))
   \<and> map_of (build_notion_properties b) key_publisher =
       Some (rich_text_property (Some (collapse_spaces (Some (or_else (publisher b) [])))))
   \<and> map_of (build_notion_properties b) key_author =
       Some (rich_text_property (Some (if or_else (author b) [] \<noteq> []
          then collapse_spaces (Some (join (ustr '', '') (or_else (author b) []))) else [])))
   \<and> map_of (build_notion_properties b) key_translator =
       Some (rich_text_property (Some (if or_else (translator b) [] \<noteq> []
          then collapse_spaces (Some (join (ustr '', '') (or_else (translator b) []))) else [])))
   \<and> map_of (build_notion_properties b) key_pubdate = Some (date_property (convert_pubdate (pubdate b)))
   \<and> map_of (build_notion_properties b) key_producer =
       Some (rich_text_property (Some (or_else (producer b) [])))
   \<and> map_of (build_notion_properties b) key_binding =
       Some (select_property (Some (or_else (binding b) [])))
   \<and> map_of (build_notion_properties b) key_pages =
       Some (number_property (Some (case pages b of None \<Rightarrow> [] | Some p \<Rightarrow> strip p)))"
  unfolding build_notion_properties_def Let_def
  by (simp add: key_defs)

text \<open>
  Claim C3. \<open>build_notion_properties\<close> is a function of the book alone: it reads
  nothing else and no path of it raises, so it gives a payload for every book and the
  same payload for the same book. The payload has exactly the eight keys, in this order
  and without repetition, each with the wrapper of its column. A field that is absent
  gives the empty value of its wrapper: a title of empty text, an empty rich text, a null
  date, a null select, a null number.
\<close>

theorem build_notion_properties_total:
  "map fst (build_notion_properties b) =
     [key_title, key_publisher, key_author, key_translator, key_pubdate, key_producer,
      key_binding, key_pages]
   \<and> distinct (map fst (build_notion_properties b))
   \<and> (\<exists>t p a tr d pr bi n. map snd (build_notion_properties b) =
         [TitleProp [t], RichTextProp p, RichTextProp a, RichTextProp tr, DateProp d,
          RichTextProp pr, SelectProp bi, NumberProp n])
   \<and> (title b = None \<longrightarrow> map_of (build_notion_properties b) key_title = Some (TitleProp [[]]))
   \<and> (publisher b = None \<longrightarrow>
         map_of (build_notion_properties b) key_publisher = Some (RichTextProp []))
   \<and> (author b = None \<longrightarrow>
         map_of (build_notion_properties b) key_author = Some (RichTextProp []))
   \<and> (translator b = None \<longrightarrow>
         map_of (build_notion_properties b) key_translator = Some (RichTextProp []))
   \<and> (pubdate b = None \<longrightarrow>
         map_of (build_notion_properties b) key_pubdate = Some (DateProp None))
   \<and> (producer b = None \<longrightarrow>
         map_of (build_notion_properties b) key_producer = Some (RichTextProp []))
   \<and> (binding b = None \<longrightarrow>
         map_of (build_notion_properties b) key_binding = Some (SelectProp None))
   \<and> (pages b = None \<longrightarrow>
         map_of (build_notion_properties b) key_pages = Some (NumberProp None))"
proof -
  note l = build_lookup [of b]
  have d: "distinct (map fst (build_notion_properties b))"
    by (simp only: build_keys keys_distinct)
  have 1: "title b = None \<longrightarrow>
      map_of (build_notion_properties b) key_title = Some (TitleProp [[]])"
    using l by (simp add: or_else_None title_property_def)
  have 2: "publisher b = None \<longrightarrow>
      map_of (build_notion_properties b) key_publisher = Some (RichTextProp [])"
    using l by (simp add: or_else_None collapse_spaces_Nil rich_text_property_def)
  have 3: "author b = None \<longrightarrow>
      map_of (build_notion_properties b) key_author = Some (RichTextProp [])"
    using l by (simp add: or_else_None rich_text_property_def)
  have 4: "translator b = None \<longrightarrow>
      map_of (build_notion_properties b) key_translator = Some (RichTextProp [])"
    using l by (simp add: or_else_None rich_text_property_def)
  have 5: "pubdate b = None \<longrightarrow>
      map_of (build_notion_properties b) key_pubdate = Some (DateProp None)"
    using l by (simp add: convert_pubdate_def date_property_def)
  have 6: "producer b = None \<longrightarrow>
      map_of (build_notion_properties b) key_producer = Some (RichTextProp [])"
    using l by (simp add: or_else_None rich_text_property_def)
  have 7: "binding b = None \<longrightarrow>
      map_of (build_notion_properties b) key_binding = Some (SelectProp None)"
    using l by (simp add: or_else_None select_property_def)
  have 8: "pages b = None \<longrightarrow>
      map_of (build_notion_properties b) key_pages = Some (NumberProp None)"
    using l by (simp add: number_property_def)
  show ?thesis
    using build_keys [of b] d build_wrappers [of b] 1 2 3 4 5 6 7 8 by blast
qed

theorem build_notion_properties_total_witness:
  "title empty_book = None \<and> publisher empty_book = None \<and> author empty_book = None
   \<and> translator empty_book = None \<and> pubdate empty_book = None \<and> producer empty_book = None
   \<and> binding empty_book = None \<and> pages empty_book = None
   \<and> map_of (build_notion_properties empty_book) key_title = Some (TitleProp [[]])
   \<and> map_of (build_notion_properties empty_book) key_publisher = Some (RichTextProp [])
   \<and> map_of (build_notion_properties empty_book) key_author = Some (RichTextProp [])
   \<and> map_of (build_notion_properties empty_book) key_translator = Some (RichTextProp [])
   \<and> map_of (build_notion_properties empty_book) key_pubdate = Some (DateProp None)
   \<and> map_of (build_notion_properties empty_book) key_producer = Some (RichTextProp [])
   \<and> map_of (build_notion_properties empty_book) key_binding = Some (SelectProp None)
   \<and> map_of (build_notion_properties empty_book) key_pages = Some (NumberProp None)"
proof -
  have h: "title empty_book = None \<and> publisher empty_book = None \<and> author empty_book = None
   \<and> translator empty_book = None \<and> pubdate empty_book = None \<and> producer empty_book = None
   \<and> binding empty_book = None \<and> pages empty_book = None"
    by (simp add: empty_book_def)
  show ?thesis using h build_notion_properties_total [of empty_book] by blast
qed

section \<open>Submitting the page\<close>

lemma notion_headers_ok: "token \<noteq> [] \<Longrightarrow> \<exists>h. notion_headers token = Inr h"
  by (simp add: notion_headers_def)

lemma posts_simps:
  "posts [] = 0"
  "posts (HttpPost t d p # log) = Suc (posts log)"
  "posts (Warn n # log) = posts log"
  "posts (Sleep n # log) = posts log"
  "posts (HttpGet u # log) = posts log"
  by (simp_all add: posts_def)

lemma sleeps_simps:
  "sleeps [] = []"
  "sleeps (HttpPost t d p # log) = sleeps log"
  "sleeps (Warn n # log) = sleeps log"
  "sleeps (Sleep n # log) = n # sleeps log"
  "sleeps (HttpGet u # log) = sleeps log"
  by (simp_all add: sleeps_def)

lemma post_loop_3:
  assumes "token \<noteq> []"
  shows "post_loop post token database_id props [0, 1, 2] None [] =
    (case post 0 of
       PostResponse s t j \<Rightarrow> (Inr (s, t, j), [HttpPost token database_id props])
     | OtherException x \<Rightarrow> (Inl (TransportException x), [HttpPost token database_id props])
     | ReadTimeout e0 \<Rightarrow>
        (case post 1 of
           PostResponse s t j \<Rightarrow>
             (Inr (s, t, j), [HttpPost token database_id props, Warn 1, Sleep 2,
                              HttpPost token database_id props])
         | OtherException x \<Rightarrow>
             (Inl (TransportException x), [HttpPost token database_id props, Warn 1, Sleep 2,
                              HttpPost token database_id props])
         | ReadTimeout e1 \<Rightarrow>
            (case post 2 of
               PostResponse s t j \<Rightarrow>
                 (Inr (s, t, j), [HttpPost token database_id props, Warn 1, Sleep 2,
                                  HttpPost token database_id props, Warn 2, Sleep 2,
                                  HttpPost token database_id props])
             | OtherException x \<Rightarrow>
                 (Inl (TransportException x), [HttpPost token database_id props, Warn 1, Sleep 2,
                                  HttpPost token database_id props, Warn 2, Sleep 2,
                                  HttpPost token database_id props])
             | ReadTimeout e2 \<Rightarrow>
                 (Inl (NotionTimeout (Some e2)), [HttpPost token database_id props, Warn 1, Sleep 2,
                                  HttpPost token database_id props, Warn 2, Sleep 2,
                                  HttpPost token database_id props, Warn 3, Sleep 2]))))"
  using assms by (simp add: notion_headers_def split: post_outcome.splits)

lemma create_posts_le_3:
  assumes "token \<noteq> []" "database_id \<noteq> []"
  shows "posts (snd (create_notion_page post token database_id props)) \<le> 3"
  unfolding create_notion_page_def post_loop_3 [OF assms(1)]
  using assms(2) by (simp add: posts_simps split: post_outcome.splits option.splits)

lemma create_sleeps_2:
  assumes "token \<noteq> []" "database_id \<noteq> []"
  shows "set (sleeps (snd (create_notion_page post token database_id props))) \<subseteq> {2}"
  unfolding create_notion_page_def post_loop_3 [OF assms(1)]
  using assms(2) by (simp add: sleeps_simps split: post_outcome.splits option.splits)

text \<open>
  Claim C4. With a token and a database id that are not empty, whatever the outcomes of
  the requests: at most three requests are sent and every sleep is of 2 seconds. Three
  timeouts give the timeout error, which carries the last timeout, after three requests,
  each followed by its warning and its sleep. A timeout followed by a response of status
  200 with a JSON body, at the second or the third request, returns that body, with one
  sleep between two requests. An exception that is not a read timeout, at the first, the
  second or the third request, is raised as it is and no request follows it.
\<close>

theorem create_notion_page_retry:
  "token \<noteq> [] \<and> database_id \<noteq> [] \<longrightarrow>
     posts (snd (create_notion_page post token database_id props)) \<le> 3
   \<and> (\<forall>n \<in> set (sleeps (snd (create_notion_page post token database_id props))). n = 2)
   \<and> (\<forall>e0 e1 e2. post 0 = ReadTimeout e0 \<and> post 1 = ReadTimeout e1 \<and> post 2 = ReadTimeout e2 \<longrightarrow>
         create_notion_page post token database_id props =
           (Inl (NotionTimeout (Some e2)),
            [HttpPost token database_id props, Warn 1, Sleep 2,
             HttpPost token database_id props, Warn 2, Sleep 2,
             HttpPost token database_id props, Warn 3, Sleep 2]))
   \<and> (\<forall>e0 t j. post 0 = ReadTimeout e0 \<and> post 1 = PostResponse 200 t (Some j) \<longrightarrow>
         create_notion_page post token database_id props =
           (Inr j, [HttpPost token database_id props, Warn 1, Sleep 2,
                    HttpPost token database_id props]))
   \<and> (\<forall>e0 e1 t j. post 0 = ReadTimeout e0 \<and> post 1 = ReadTimeout e1
                   \<and> post 2 = PostResponse 200 t (Some j) \<longrightarrow>
         create_notion_page post token database_id props =
           (Inr j, [HttpPost token database_id props, Warn 1, Sleep 2,
                    HttpPost token database_id props, Warn 2, Sleep 2,
                    HttpPost token database_id props]))
   \<and> (\<forall>x. post 0 = OtherException x \<longrightarrow>
         create_notion_page post token database_id props =
           (Inl (TransportException x), [HttpPost token database_id props]))
   \<and> (\<forall>e0 x. post 0 = ReadTimeout e0 \<and> post 1 = OtherException x \<longrightarrow>
         create_notion_page post token database_id props =
           (Inl (TransportException x),
            [HttpPost token database_id props, Warn 1, Sleep 2,
             HttpPost token database_id props]))
   \<and> (\<forall>e0 e1 x. post 0 = ReadTimeout e0 \<and> post 1 = ReadTimeout e1 \<and> post 2 = OtherException x \<longrightarrow>
         create_notion_page post token database_id props =
           (Inl (TransportException x),
            [HttpPost token database_id props, Warn 1, Sleep 2,
             HttpPost token database_id props, Warn 2, Sleep 2,
             HttpPost token database_id props]))"
proof (intro impI)
  assume a: "token \<noteq> [] \<and> database_id \<noteq> []"
  from a have a1: "token \<noteq> []" by simp
  note l = post_loop_3 [OF a1, of post database_id props]
  have 1: "posts (snd (create_notion_page post token database_id props)) \<le> 3"
    using a by (simp add: create_posts_le_3)
  have 2: "\<forall>n \<in> set (sleeps (snd (create_notion_page post token database_id props))). n = 2"
    using a create_sleeps_2 [of token database_id post props] by auto
  have 3: "\<forall>e0 e1 e2. post 0 = ReadTimeout e0 \<and> post 1 = ReadTimeout e1 \<and> post 2 = ReadTimeout e2 \<longrightarrow>
         create_notion_page post token database_id props =
           (Inl (NotionTimeout (Some e2)),
            [HttpPost token database_id props, Warn 1, Sleep 2,
             HttpPost token database_id props, Warn 2, Sleep 2,
             HttpPost token database_id props, Warn 3, Sleep 2])"
    using a unfolding create_notion_page_def l by simp
  have 4: "\<forall>e0 t j. post 0 = ReadTimeout e0 \<and> post 1 = PostResponse 200 t (Some j) \<longrightarrow>
         create_notion_page post token database_id props =
           (Inr j, [HttpPost token database_id props, Warn 1, Sleep 2,
                    HttpPost token database_id props])"
    using a unfolding create_notion_page_def l by simp
  have 5: "\<forall>e0 e1 t j. post 0 = ReadTimeout e0 \<and> post 1 = ReadTimeout e1
                   \<and> post 2 = PostResponse 200 t (Some j) \<longrightarrow>
         create_notion_page post token database_id props =
           (Inr j, [HttpPost token database_id props, Warn 1, Sleep 2,
                    HttpPost token database_id props, Warn 2, Sleep 2,
                    HttpPost token database_id props])"
    using a unfolding create_notion_page_def l by simp
  have 6: "\<forall>x. post 0 = OtherException x \<longrightarrow>
         create_notion_page post token database_id props =
           (Inl (TransportException x), [HttpPost token database_id props])"
    using a unfolding create_notion_page_def l by simp
  have 7: "\<forall>e0 x. post 0 = ReadTimeout e0 \<and> post 1 = OtherException x \<longrightarrow>
         create_notion_page post token database_id props =
           (Inl (TransportException x),
            [HttpPost token database_id props, Warn 1, Sleep 2,
             HttpPost token database_id props])"
    using a unfolding create_notion_page_def l by simp
  have 8: "\<forall>e0 e1 x. post 0 = ReadTimeout e0 \<and> post 1 = ReadTimeout e1 \<and> post 2 = OtherException x \<longrightarrow>
         create_notion_page post token database_id props =
           (Inl (TransportException x),
            [HttpPost token database_id props, Warn 1, Sleep 2,
             HttpPost token database_id props, Warn 2, Sleep 2,
             HttpPost token database_id props])"
    using a unfolding create_notion_page_def l by simp
  show "posts (snd (create_notion_page post token database_id props)) \<le> 3
   \<and> (\<forall>n \<in> set (sleeps (snd (create_notion_page post token database_id props))). n = 2)
   \<and> (\<forall>e0 e1 e2. post 0 = ReadTimeout e0 \<and> post 1 = ReadTimeout e1 \<and> post 2 = ReadTimeout e2 \<longrightarrow>
         create_notion_page post token database_id props =
           (Inl (NotionTimeout (Some e2)),
            [HttpPost token database_id props, Warn 1, Sleep 2,
             HttpPost token database_id props, Warn 2, Sleep 2,
             HttpPost token database_id props, Warn 3, Sleep 2]))
   \<and> (\<forall>e0 t j. post 0 = ReadTimeout e0 \<and> post 1 = PostResponse 200 t (Some j) \<longrightarrow>
         create_notion_page post token database_id props =
           (Inr j, [HttpPost token database_id props, Warn 1, Sleep 2,
                    HttpPost token database_id props]))
   \<and> (\<forall>e0 e1 t j. post 0 = ReadTimeout e0 \<and> post 1 = ReadTimeout e1
                   \<and> post 2 = PostResponse 200 t (Some j) \<longrightarrow>
         create_notion_page post token database_id props =
           (Inr j, [HttpPost token database_id props, Warn 1, Sleep 2,
                    HttpPost token database_id props, Warn 2, Sleep 2,
                    HttpPost token database_id props]))
   \<and> (\<forall>x. post 0 = OtherException x \<longrightarrow>
         create_notion_page post token database_id props =
           (Inl (TransportException x), [HttpPost token database_id props]))
   \<and> (\<forall>e0 x. post 0 = ReadTimeout e0 \<and> post 1 = OtherException x \<longrightarrow>
         create_notion_page post token database_id props =
           (Inl (TransportException x),
            [HttpPost token database_id props, Warn 1, Sleep 2,
             HttpPost token database_id props]))
   \<and> (\<forall>e0 e1 x. post 0 = ReadTimeout e0 \<and> post 1 = ReadTimeout e1 \<and> post 2 = OtherException x \<longrightarrow>
         create_notion_page post token database_id props =
           (Inl (TransportException x),
            [HttpPost token database_id props, Warn 1, Sleep 2,
             HttpPost token database_id props, Warn 2, Sleep 2,
             HttpPost token database_id props]))"
    using 1 2 3 4 5 6 7 8 by blast
qed

theorem create_notion_page_retry_witness:
  "ustr ''t'' \<noteq> [] \<and> ustr ''d'' \<noteq> []
   \<and> create_notion_page (\<lambda>n. if n < 2 then ReadTimeout [] else PostResponse 200 [] (Some ()))
        (ustr ''t'') (ustr ''d'') [] =
       (Inr (), [HttpPost (ustr ''t'') (ustr ''d'') [], Warn 1, Sleep 2,
                 HttpPost (ustr ''t'') (ustr ''d'') [], Warn 2, Sleep 2,
                 HttpPost (ustr ''t'') (ustr ''d'') []])
   \<and> create_notion_page (\<lambda>n. ReadTimeout [n] :: unit post_outcome) (ustr ''t'') (ustr ''d'') [] =
       (Inl (NotionTimeout (Some [2])),
        [HttpPost (ustr ''t'') (ustr ''d'') [], Warn 1, Sleep 2,
         HttpPost (ustr ''t'') (ustr ''d'') [], Warn 2, Sleep 2,
         HttpPost (ustr ''t'') (ustr ''d'') [], Warn 3, Sleep 2])"
proof -
  have h: "ustr ''t'' \<noteq> [] \<and> ustr ''d'' \<noteq> []" by (simp add: ustr_def)
  have 1: "create_notion_page (\<lambda>n. if n < 2 then ReadTimeout [] else PostResponse 200 [] (Some ()))
        (ustr ''t'') (ustr ''d'') [] =
       (Inr (), [HttpPost (ustr ''t'') (ustr ''d'') [], Warn 1, Sleep 2,
                 HttpPost (ustr ''t'') (ustr ''d'') [], Warn 2, Sleep 2,
                 HttpPost (ustr ''t'') (ustr ''d'') []])"
    by (rule mp [OF create_notion_page_retry [of "ustr ''t''" "ustr ''d''"
        "\<lambda>n. if n < 2 then ReadTimeout [] else PostResponse 200 [] (Some ())" "[]"] h,
        THEN conjunct2, THEN conjunct2, THEN conjunct2, THEN conjunct2, THEN conjunct1,
        rule_format, of "[]" "[]" "[]" "()"]) simp
  have 2: "create_notion_page (\<lambda>n. ReadTimeout [n] :: unit post_outcome) (ustr ''t'') (ustr ''d'') [] =
       (Inl (NotionTimeout (Some [2])),
        [HttpPost (ustr ''t'') (ustr ''d'') [], Warn 1, Sleep 2,
         HttpPost (ustr ''t'') (ustr ''d'') [], Warn 2, Sleep 2,
         HttpPost (ustr ''t'') (ustr ''d'') [], Warn 3, Sleep 2])"
    by (rule mp [OF create_notion_page_retry [of "ustr ''t''" "ustr ''d''"
        "\<lambda>n. ReadTimeout [n] :: unit post_outcome" "[]"] h,
        THEN conjunct2, THEN conjunct2, THEN conjunct1,
        rule_format, of "[0]" "[1]" "[2]"]) simp
  show ?thesis using h 1 2 by blast
qed

section \<open>Fetching the page\<close>

lemma fetch_cases:
  "fetch_book_from_douban http_get parse isbn =
     (case http_get (douban_url isbn) of
        RequestException \<Rightarrow> Inl DoubanNetworkError
      | Response s t \<Rightarrow>
          if s = 404 then Inl (DoubanNotFound (douban_url isbn))
          else if s \<noteq> 200 then Inl (DoubanBadStatus s (take 200 t))
          else if title_tag (parse t) = None then Inl TitleTagMissing
          else if info_div (parse t) = None then Inl InfoDivMissing
          else Inr (foldl (\<lambda>b span. process_label span b)
                     \<lparr>title = Some (collapse_spaces (title_tag (parse t))),
                      publisher = Some [], author = Some [], translator = Some [],
                      pubdate = None, producer = None, binding = None, pages = None\<rparr>
                     (the (info_div (parse t)))))"
  unfolding fetch_book_from_douban_def Let_def
  by (simp split: get_outcome.splits option.splits)

text \<open>
  Claim C5. The fetch fails with the network error exactly when the request raises, with
  the not-found error exactly when the status is 404, with the status error, which
  carries the status and the first 200 characters of the body, exactly when the status is
  neither 404 nor 200, and with one of the two page structure errors exactly when the
  status is 200 and the title tag or the info block is missing. It returns a book exactly
  when the status is 200 and both are there, and it fails with no other error.
\<close>

theorem fetch_book_errors:
  "(fetch_book_from_douban http_get parse isbn = Inl DoubanNetworkError
      \<longleftrightarrow> http_get (douban_url isbn) = RequestException)
   \<and> ((\<exists>u. fetch_book_from_douban http_get parse isbn = Inl (DoubanNotFound u))
      \<longleftrightarrow> (\<exists>t. http_get (douban_url isbn) = Response 404 t))
   \<and> ((\<exists>s x. fetch_book_from_douban http_get parse isbn = Inl (DoubanBadStatus s x))
      \<longleftrightarrow> (\<exists>s t. http_get (douban_url isbn) = Response s t \<and> s \<noteq> 404 \<and> s \<noteq> 200))
   \<and> (\<forall>s t. http_get (douban_url isbn) = Response s t \<and> s \<noteq> 404 \<and> s \<noteq> 200 \<longrightarrow>
         fetch_book_from_douban http_get parse isbn = Inl (DoubanBadStatus s (take 200 t)))
   \<and> (fetch_book_from_douban http_get parse isbn = Inl TitleTagMissing
        \<or> fetch_book_from_douban http_get parse isbn = Inl InfoDivMissing
      \<longleftrightarrow> (\<exists>t. http_get (douban_url isbn) = Response 200 t
               \<and> (title_tag (parse t) = None \<or> info_div (parse t) = None)))
   \<and> ((\<exists>b. fetch_book_from_douban http_get parse isbn = Inr b)
      \<longleftrightarrow> (\<exists>t. http_get (douban_url isbn) = Response 200 t
               \<and> title_tag (parse t) \<noteq> None \<and> info_div (parse t) \<noteq> None))
   \<and> (\<forall>e. fetch_book_from_douban http_get parse isbn = Inl e \<longrightarrow>
         e = DoubanNetworkError \<or> e = DoubanNotFound (douban_url isbn)
         \<or> (\<exists>s x. e = DoubanBadStatus s x) \<or> e = TitleTagMissing \<or> e = InfoDivMissing)"
proof (cases "http_get (douban_url isbn)")
  case RequestException
  then show ?thesis by (simp add: fetch_cases)
next
  case r: (Response s t)
  consider (nf) "s = 404" | (bad) "s \<noteq> 404" "s \<noteq> 200"
    | (tm) "s = 200" "title_tag (parse t) = None"
    | (im) "s = 200" "title_tag (parse t) \<noteq> None" "info_div (parse t) = None"
    | (ok) "s = 200" "title_tag (parse t) \<noteq> None" "info_div (parse t) \<noteq> None"
    by fastforce
  then show ?thesis
  proof cases
    case nf
    then show ?thesis using r by (simp add: fetch_cases)
  next
    case bad
    then show ?thesis using r by (simp add: fetch_cases)
  next
    case tm
    then show ?thesis using r by (simp add: fetch_cases)
  next
    case im
    then show ?thesis using r by (simp add: fetch_cases)
  next
    case ok
    then show ?thesis using r by (simp add: fetch_cases)
  qed
qed

theorem fetch_book_errors_witness:
  "(\<exists>t. (\<lambda>u. Response 404 []) (douban_url [57]) = Response 404 t)
   \<and> (\<exists>u. fetch_book_from_douban (\<lambda>u. Response 404 [])
             (\<lambda>t. \<lparr>title_tag = None, info_div = None\<rparr>) [57] = Inl (DoubanNotFound u))
   \<and> (\<exists>t. (\<lambda>u. Response 200 []) (douban_url [57]) = Response 200 t
         \<and> title_tag ((\<lambda>t. \<lparr>title_tag = Some [84], info_div = Some []\<rparr>) t) \<noteq> None
         \<and> info_div ((\<lambda>t. \<lparr>title_tag = Some [84], info_div = Some []\<rparr>) t) \<noteq> None)
   \<and> (\<exists>b. fetch_book_from_douban (\<lambda>u. Response 200 [])
             (\<lambda>t. \<lparr>title_tag = Some [84], info_div = Some []\<rparr>) [57] = Inr b)"
proof -
  have 1: "\<exists>t. (\<lambda>u. Response 404 []) (douban_url [57]) = Response 404 t" by simp
  have 2: "\<exists>u. fetch_book_from_douban (\<lambda>u. Response 404 [])
             (\<lambda>t. \<lparr>title_tag = None, info_div = None\<rparr>) [57] = Inl (DoubanNotFound u)"
    by (rule fetch_book_errors [of "\<lambda>u. Response 404 []"
        "\<lambda>t. \<lparr>title_tag = None, info_div = None\<rparr>" "[57]",
        THEN conjunct2, THEN conjunct1, THEN iffD2, OF 1])
  have 3: "\<exists>t. (\<lambda>u. Response 200 []) (douban_url [57]) = Response 200 t
         \<and> title_tag ((\<lambda>t. \<lparr>title_tag = Some [84], info_div = Some []\<rparr>) t) \<noteq> None
         \<and> info_div ((\<lambda>t. \<lparr>title_tag = Some [84], info_div = Some []\<rparr>) t) \<noteq> None"
    by simp
  have 4: "\<exists>b. fetch_book_from_douban (\<lambda>u. Response 200 [])
             (\<lambda>t. \<lparr>title_tag = Some [84], info_div = Some []\<rparr>) [57] = Inr b"
    by (rule fetch_book_errors [of "\<lambda>u. Response 200 []"
        "\<lambda>t. \<lparr>title_tag = Some [84], info_div = Some []\<rparr>" "[57]",
        THEN conjunct2, THEN conjunct2, THEN conjunct2, THEN conjunct2, THEN conjunct2,
        THEN conjunct1, THEN iffD2, OF 3])
  show ?thesis by (rule conjI [OF 1 conjI [OF 2 conjI [OF 3 4]]])
qed

section \<open>Empty inputs\<close>

lemma create_no_database: "create_notion_page post token [] props = (Inl DatabaseIdEmpty, [])"
  by (simp add: create_notion_page_def)

lemma create_no_token:
  "database_id \<noteq> [] \<Longrightarrow> create_notion_page post [] database_id props = (Inl TokenEmpty, [])"
  by (simp add: create_notion_page_def notion_headers_def)

lemma create_empty_input:
  assumes "token = [] \<or> database_id = []"
  shows "\<exists>e. create_notion_page post token database_id props = (Inl e, [])"
proof (cases "database_id = []")
  case True
  then show ?thesis by (simp add: create_no_database)
next
  case False
  then show ?thesis using assms by (simp add: create_no_token)
qed

text \<open>
  Claim C6. An empty ISBN makes \<open>run_import\<close> fail before any event: no GET and no
  POST. An empty database id makes \<open>create_notion_page\<close> fail with no event, and so
  does an empty token, whose error is raised when the headers are built, before the first
  request; the database id is checked first, so an empty token gives its own error when
  the database id is not empty. Inside \<open>run_import\<close> either of them makes the import
  fail without a POST.
\<close>

theorem empty_inputs_rejected:
  "(isbn = [] \<longrightarrow>
      run_import http_get parse post token database_id isbn = (Inl IsbnEmpty, []))
   \<and> (db1 = [] \<longrightarrow> create_notion_page post1 tok1 db1 props1 = (Inl DatabaseIdEmpty, []))
   \<and> (tok2 = [] \<and> db2 \<noteq> [] \<longrightarrow>
        create_notion_page post2 tok2 db2 props2 = (Inl TokenEmpty, []))
   \<and> (isbn3 \<noteq> [] \<and> (tok3 = [] \<or> db3 = []) \<longrightarrow>
        (\<exists>e. fst (run_import get3 parse3 post3 tok3 db3 isbn3) = Inl e)
        \<and> posts (snd (run_import get3 parse3 post3 tok3 db3 isbn3)) = 0)"
proof -
  have 1: "isbn = [] \<longrightarrow>
      run_import http_get parse post token database_id isbn = (Inl IsbnEmpty, [])"
    by (simp add: run_import_def)
  have 2: "db1 = [] \<longrightarrow> create_notion_page post1 tok1 db1 props1 = (Inl DatabaseIdEmpty, [])"
    by (simp add: create_no_database)
  have 3: "tok2 = [] \<and> db2 \<noteq> [] \<longrightarrow>
        create_notion_page post2 tok2 db2 props2 = (Inl TokenEmpty, [])"
    by (simp add: create_no_token)
  have 4: "(\<exists>e. fst (run_import get3 parse3 post3 tok3 db3 isbn3) = Inl e)
        \<and> posts (snd (run_import get3 parse3 post3 tok3 db3 isbn3)) = 0"
    if a: "isbn3 \<noteq> [] \<and> (tok3 = [] \<or> db3 = [])"
  proof (cases "fetch_book_from_douban get3 parse3 isbn3")
    case (Inl e)
    then show ?thesis using a by (simp add: run_import_def posts_simps)
  next
    case (Inr b)
    obtain e where "create_notion_page post3 tok3 db3 (build_notion_properties b) = (Inl e, [])"
      using a create_empty_input [of tok3 db3 post3 "build_notion_properties b"] by blast
    then show ?thesis using a Inr by (simp add: run_import_def Let_def posts_simps)
  qed
  show ?thesis using 1 2 3 4 by blast
qed

theorem empty_inputs_rejected_witness:
  "run_import (\<lambda>u. RequestException) (\<lambda>t. \<lparr>title_tag = None, info_div = None\<rparr>)
      (\<lambda>n. ReadTimeout [] :: unit post_outcome) (ustr ''t'') (ustr ''d'') [] = (Inl IsbnEmpty, [])
   \<and> create_notion_page (\<lambda>n. ReadTimeout [] :: unit post_outcome) (ustr ''t'') [] [] =
       (Inl DatabaseIdEmpty, [])
   \<and> ustr ''d'' \<noteq> []
   \<and> create_notion_page (\<lambda>n. ReadTimeout [] :: unit post_outcome) [] (ustr ''d'') [] =
       (Inl TokenEmpty, [])
   \<and> [57] \<noteq> ([] :: ustring)
   \<and> posts (snd (run_import (\<lambda>u. Response 200 [])
        (\<lambda>t. \<lparr>title_tag = Some [84], info_div = Some []\<rparr>)
        (\<lambda>n. ReadTimeout [] :: unit post_outcome) [] (ustr ''d'') [57])) = 0"
proof -
  have h: "ustr ''d'' \<noteq> [] \<and> [57] \<noteq> ([] :: ustring)" by (simp add: ustr_def)
  show ?thesis
    using h empty_inputs_rejected [of "[]" "\<lambda>u. RequestException"
        "\<lambda>t. \<lparr>title_tag = None, info_div = None\<rparr>" "\<lambda>n. ReadTimeout [] :: unit post_outcome"
        "ustr ''t''" "ustr ''d''"
        "[]" "\<lambda>n. ReadTimeout [] :: unit post_outcome" "ustr ''t''" "[]"
        "[]" "ustr ''d''" "\<lambda>n. ReadTimeout [] :: unit post_outcome" "[]"
        "[57]" "[]" "ustr ''d''" "\<lambda>u. Response 200 []"
        "\<lambda>t. \<lparr>title_tag = Some [84], info_div = Some []\<rparr>"
        "\<lambda>n. ReadTimeout [] :: unit post_outcome"]
    by blast
qed

section \<open>Collapsing white space\<close>

declare ws_words.simps [simp del]

lemma isspace_32: "isspace 32"
  by (simp add: isspace_def)

lemma dropWhile_Cons_nonspace:
  assumes "dropWhile isspace s = c # cs"
  shows "\<not> isspace c"
  using hd_dropWhile [of isspace s] assms by simp

lemma starts_space_takeWhile:
  "r = [] \<or> isspace (hd r) \<Longrightarrow> takeWhile (\<lambda>x. \<not> isspace x) r = []"
  by (cases r) auto

lemma starts_space_dropWhile:
  "r = [] \<or> isspace (hd r) \<Longrightarrow> dropWhile (\<lambda>x. \<not> isspace x) r = r"
  by (cases r) auto

lemma dropWhile_nonspace_starts_space:
  "dropWhile (\<lambda>x. \<not> isspace x) cs = [] \<or> isspace (hd (dropWhile (\<lambda>x. \<not> isspace x) cs))"
  using hd_dropWhile [of "\<lambda>x. \<not> isspace x" cs] by auto

lemma takeWhile_nonspace:
  assumes "y \<in> set (takeWhile (\<lambda>x. \<not> isspace x) cs)"
  shows "\<not> isspace y"
  using set_takeWhileD [OF assms] by simp

lemma word_nonspace:
  assumes "\<not> isspace c"
  shows "\<forall>y\<in>set (c # takeWhile (\<lambda>x. \<not> isspace x) cs). \<not> isspace y"
proof
  fix y
  assume "y \<in> set (c # takeWhile (\<lambda>x. \<not> isspace x) cs)"
  then have "y = c \<or> y \<in> set (takeWhile (\<lambda>x. \<not> isspace x) cs)" by simp
  then show "\<not> isspace y" using assms takeWhile_nonspace by blast
qed

lemma ws_words_Nil: "ws_words [] = []"
  by (simp add: ws_words.simps)

lemma ws_words_dropWhile_Nil:
  assumes "dropWhile isspace s = []"
  shows "ws_words s = []"
  by (subst ws_words.simps) (simp only: assms list.case)

lemma ws_words_all_space: "\<forall>c\<in>set s. isspace c \<Longrightarrow> ws_words s = []"
  by (rule ws_words_dropWhile_Nil) (simp add: dropWhile_eq_Nil_conv)

lemma ws_words_Cons:
  assumes "dropWhile isspace s = c # cs"
  shows "ws_words s =
    (c # takeWhile (\<lambda>x. \<not> isspace x) cs) # ws_words (dropWhile (\<lambda>x. \<not> isspace x) cs)"
  by (subst ws_words.simps) (simp only: assms list.case)

lemma ws_words_Nil_iff: "ws_words s = [] \<longleftrightarrow> (\<forall>c\<in>set s. isspace c)"
proof (cases "dropWhile isspace s")
  case Nil
  then show ?thesis by (simp add: ws_words_all_space dropWhile_eq_Nil_conv)
next
  case (Cons c cs)
  then have "\<not> (\<forall>c\<in>set s. isspace c)"
    using dropWhile_eq_Nil_conv [of isspace s] by auto
  then show ?thesis using ws_words_Cons [OF Cons] by simp
qed

lemma ws_words_space_Cons: "isspace c \<Longrightarrow> ws_words (c # s) = ws_words s"
  by (subst (1 2) ws_words.simps) simp

lemma ws_words_word:
  assumes "w \<noteq> []" "\<forall>c\<in>set w. \<not> isspace c" "r = [] \<or> isspace (hd r)"
  shows "ws_words (w @ r) = w # ws_words r"
proof -
  obtain c w' where w: "w = c # w'" using assms(1) by (cases w) auto
  have d: "dropWhile isspace (w @ r) = c # (w' @ r)" using w assms(2) by simp
  have t: "takeWhile (\<lambda>x. \<not> isspace x) (w' @ r) = w'"
    using w assms(2) assms(3) by (simp add: takeWhile_append2 starts_space_takeWhile)
  have e: "dropWhile (\<lambda>x. \<not> isspace x) (w' @ r) = r"
    using w assms(2) assms(3) by (simp add: dropWhile_append2 starts_space_dropWhile)
  show ?thesis using ws_words_Cons [OF d] t e w by simp
qed

lemma ws_words_ok: "\<forall>w\<in>set (ws_words s). w \<noteq> [] \<and> (\<forall>c\<in>set w. \<not> isspace c)"
proof (induction s rule: ws_words.induct)
  case (1 s)
  show ?case
  proof (cases "dropWhile isspace s")
    case Nil
    then show ?thesis by (simp add: ws_words_all_space dropWhile_eq_Nil_conv)
  next
    case (Cons c cs)
    have n: "\<not> isspace c" using Cons by (rule dropWhile_Cons_nonspace)
    have e: "set (ws_words s) = insert (c # takeWhile (\<lambda>x. \<not> isspace x) cs)
        (set (ws_words (dropWhile (\<lambda>x. \<not> isspace x) cs)))"
      by (simp only: ws_words_Cons [OF Cons] list.set)
    show ?thesis unfolding e using word_nonspace [OF n, of cs] 1 [OF Cons] by blast
  qed
qed

lemma filter_dropWhile_space:
  "filter (\<lambda>c. \<not> isspace c) (dropWhile isspace s) = filter (\<lambda>c. \<not> isspace c) s"
  by (induction s) auto

lemma filter_takeWhile_same: "filter p (takeWhile p s) = takeWhile p s"
  by (induction s) auto

lemma concat_ws_words: "concat (ws_words s) = filter (\<lambda>c. \<not> isspace c) s"
proof (induction s rule: ws_words.induct)
  case (1 s)
  show ?case
  proof (cases "dropWhile isspace s")
    case Nil
    then have a: "\<forall>c\<in>set s. isspace c" by (simp add: dropWhile_eq_Nil_conv)
    then have "filter (\<lambda>c. \<not> isspace c) s = []" by (simp add: filter_empty_conv)
    then show ?thesis using a by (simp add: ws_words_all_space)
  next
    case (Cons c cs)
    have n: "\<not> isspace c" using Cons by (rule dropWhile_Cons_nonspace)
    have "filter (\<lambda>c. \<not> isspace c) s = filter (\<lambda>c. \<not> isspace c) (c # cs)"
      using filter_dropWhile_space [of s] Cons by simp
    also have "\<dots> = c # filter (\<lambda>c. \<not> isspace c)
        (takeWhile (\<lambda>x. \<not> isspace x) cs @ dropWhile (\<lambda>x. \<not> isspace x) cs)"
      using n by simp
    also have "\<dots> = c # takeWhile (\<lambda>x. \<not> isspace x) cs
        @ filter (\<lambda>c. \<not> isspace c) (dropWhile (\<lambda>x. \<not> isspace x) cs)"
      by (simp only: filter_append filter_takeWhile_same)
    finally show ?thesis using 1 [OF Cons] ws_words_Cons [OF Cons] by simp
  qed
qed

lemma sub_prefix:
  "\<forall>c\<in>set w. \<not> p c \<Longrightarrow> re_sub_runs p repl (w @ r) = w @ re_sub_runs p repl r"
  by (induction w) auto

lemma rstrip_Nil: "rstrip p [] = []"
  by (simp add: rstrip_def)

lemma rstrip_all: "\<forall>c\<in>set s. p c \<Longrightarrow> rstrip p s = []"
  by (simp add: rstrip_def dropWhile_eq_Nil_conv)

lemma rstrip_append_keep:
  assumes "a \<noteq> []" "\<not> p (last a)"
  shows "rstrip p (a @ b) = a @ rstrip p b"
proof (cases "\<forall>x\<in>set b. p x")
  case True
  have 1: "dropWhile p (rev a) = rev a"
    using assms by (cases "rev a") (auto simp: last_rev [symmetric] simp del: last_rev)
  have 2: "dropWhile p (rev b @ rev a) = dropWhile p (rev a)"
    by (rule dropWhile_append2) (use True in auto)
  have 3: "dropWhile p (rev b) = []"
    using True by (simp add: dropWhile_eq_Nil_conv)
  show ?thesis by (simp add: rstrip_def 1 2 3)
next
  case False
  then show ?thesis by (auto simp: rstrip_def dropWhile_append1)
qed

lemma rstrip_sub:
  "r = [] \<or> isspace (hd r) \<Longrightarrow>
   rstrip isspace (re_sub_runs isspace [32] r) = concat (map (\<lambda>w. 32 # w) (ws_words r))"
proof (induction r rule: ws_words.induct)
  case (1 r)
  show ?case
  proof (cases r)
    case Nil
    then show ?thesis by (simp add: rstrip_Nil ws_words_Nil)
  next
    case (Cons x xs)
    then have x: "isspace x" using 1(2) by simp
    have s: "re_sub_runs isspace [32] r = 32 # re_sub_runs isspace [32] (dropWhile isspace xs)"
      using Cons x by simp
    have dr: "dropWhile isspace r = dropWhile isspace xs" using Cons x by simp
    show ?thesis
    proof (cases "dropWhile isspace xs")
      case Nil
      then have "ws_words r = []"
        using dr by (simp add: ws_words_dropWhile_Nil)
      then show ?thesis using s Nil by (simp add: rstrip_all isspace_32)
    next
      case c: (Cons c cs)
      let ?w = "c # takeWhile (\<lambda>x. \<not> isspace x) cs"
      let ?rest = "dropWhile (\<lambda>x. \<not> isspace x) cs"
      have d: "dropWhile isspace r = c # cs" using dr c by simp
      have n: "\<not> isspace c" using d by (rule dropWhile_Cons_nonspace)
      have wn: "\<forall>y\<in>set ?w. \<not> isspace y" using n by (rule word_nonspace)
      have "re_sub_runs isspace [32] (?w @ ?rest) = ?w @ re_sub_runs isspace [32] ?rest"
        using wn by (rule sub_prefix)
      then have s2: "re_sub_runs isspace [32] r = (32 # ?w) @ re_sub_runs isspace [32] ?rest"
        using s c by simp
      have l: "\<not> isspace (last (32 # ?w))" using wn by (metis last_ConsR last_in_set list.distinct(1))
      have "rstrip isspace ((32 # ?w) @ re_sub_runs isspace [32] ?rest) =
          (32 # ?w) @ rstrip isspace (re_sub_runs isspace [32] ?rest)"
        using l by (intro rstrip_append_keep) simp_all
      moreover have "rstrip isspace (re_sub_runs isspace [32] ?rest) =
          concat (map (\<lambda>w. 32 # w) (ws_words ?rest))"
        using 1(1) [OF d dropWhile_nonspace_starts_space] .
      ultimately show ?thesis using s2 ws_words_Cons [OF d] by simp
    qed
  qed
qed

lemma join_Cons: "join sep (w # ws) = w @ concat (map (\<lambda>x. sep @ x) ws)"
  by (induction ws arbitrary: w) auto

lemma collapse_words: "collapse_spaces (Some s) = join [32] (ws_words s)"
proof (cases "dropWhile isspace s")
  case Nil
  then have a: "\<forall>c\<in>set s. isspace c" by (simp add: dropWhile_eq_Nil_conv)
  have w: "ws_words s = []" using a by (rule ws_words_all_space)
  show ?thesis
  proof (cases s)
    case Nil
    then show ?thesis by (simp add: collapse_spaces_def ws_words_Nil)
  next
    case (Cons x xs)
    then have "re_sub_runs isspace [32] s = [32]"
      using a by (simp add: dropWhile_eq_Nil_conv [THEN iffD2])
    then show ?thesis using w Cons
      by (simp add: collapse_spaces_def strip_def lstrip_def rstrip_def isspace_32)
  qed
next
  case (Cons c cs)
  let ?w = "c # takeWhile (\<lambda>x. \<not> isspace x) cs"
  let ?rest = "dropWhile (\<lambda>x. \<not> isspace x) cs"
  let ?S = "re_sub_runs isspace [32]"
  have ne: "s \<noteq> []" using Cons by auto
  have n: "\<not> isspace c" using Cons by (rule dropWhile_Cons_nonspace)
  have wn: "\<forall>y\<in>set ?w. \<not> isspace y" using n by (rule word_nonspace)
  have sw: "?S (c # cs) = ?w @ ?S ?rest"
    using sub_prefix [OF wn, of "[32]" ?rest] by simp
  have l: "\<not> isspace (last ?w)" using wn by (metis last_in_set list.distinct(1))
  have lead: "dropWhile isspace (?S s) = ?w @ ?S ?rest"
  proof (cases "isspace (hd s)")
    case True
    then obtain x xs where s: "s = x # xs" "isspace x" using ne by (cases s) auto
    then have "?S s = 32 # ?S (dropWhile isspace xs)" by simp
    moreover have "dropWhile isspace xs = c # cs" using s Cons by simp
    ultimately show ?thesis using sw n by (simp add: isspace_32)
  next
    case False
    then have "s = c # cs" using Cons ne by (cases s) auto
    then show ?thesis using sw n by simp
  qed
  have "rstrip isspace (?w @ ?S ?rest) = ?w @ rstrip isspace (?S ?rest)"
    using l by (intro rstrip_append_keep) simp_all
  also have "\<dots> = ?w @ concat (map (\<lambda>w. 32 # w) (ws_words ?rest))"
    using rstrip_sub [OF dropWhile_nonspace_starts_space [of cs]] by simp
  finally have "strip (?S s) = ?w @ concat (map (\<lambda>w. 32 # w) (ws_words ?rest))"
    using lead by (simp add: strip_def lstrip_def)
  then show ?thesis using ne ws_words_Cons [OF Cons]
    by (simp add: collapse_spaces_def join_Cons)
qed

lemma spaced_words_starts_space:
  "concat (map (\<lambda>w. 32 # w) ws) = [] \<or> isspace (hd (concat (map (\<lambda>w. 32 # w) ws)))"
  by (cases ws) (simp_all add: isspace_32)

lemma ws_words_spaced:
  assumes "\<forall>w\<in>set ws. w \<noteq> [] \<and> (\<forall>c\<in>set w. \<not> isspace c)"
  shows "ws_words (concat (map (\<lambda>w. 32 # w) ws)) = ws"
  using assms
proof (induction ws)
  case Nil
  then show ?case by (simp add: ws_words_Nil)
next
  case (Cons w ws)
  have "ws_words (32 # (w @ concat (map (\<lambda>w. 32 # w) ws))) =
      ws_words (w @ concat (map (\<lambda>w. 32 # w) ws))"
    by (rule ws_words_space_Cons) (rule isspace_32)
  also have "\<dots> = w # ws_words (concat (map (\<lambda>w. 32 # w) ws))"
    using Cons.prems spaced_words_starts_space [of ws] by (intro ws_words_word) simp_all
  finally show ?case using Cons by simp
qed

lemma ws_words_join:
  assumes "\<forall>w\<in>set ws. w \<noteq> [] \<and> (\<forall>c\<in>set w. \<not> isspace c)"
  shows "ws_words (join [32] ws) = ws"
proof (cases ws)
  case Nil
  then show ?thesis by (simp add: ws_words_Nil)
next
  case (Cons w ws')
  have "ws_words (w @ concat (map (\<lambda>w. 32 # w) ws')) =
      w # ws_words (concat (map (\<lambda>w. 32 # w) ws'))"
    using assms Cons spaced_words_starts_space [of ws'] by (intro ws_words_word) simp_all
  then show ?thesis using assms Cons by (simp add: join_Cons ws_words_spaced)
qed

lemma collapse_idem: "collapse_spaces (Some (collapse_spaces t)) = collapse_spaces t"
proof (cases t)
  case None
  then show ?thesis by (simp add: collapse_spaces_def)
next
  case (Some s)
  then show ?thesis by (simp add: collapse_words ws_words_join ws_words_ok)
qed

lemma filter_spaced:
  assumes "\<forall>w\<in>set ws. \<forall>c\<in>set w. \<not> isspace c"
  shows "filter (\<lambda>c. \<not> isspace c) (concat (map (\<lambda>w. 32 # w) ws)) = concat ws"
  using assms by (induction ws) (simp_all add: isspace_32 filter_id_conv)

lemma filter_join:
  assumes "\<forall>w\<in>set ws. \<forall>c\<in>set w. \<not> isspace c"
  shows "filter (\<lambda>c. \<not> isspace c) (join [32] ws) = concat ws"
proof (cases ws)
  case Nil
  then show ?thesis by simp
next
  case (Cons w ws')
  then show ?thesis using assms by (simp add: join_Cons filter_spaced filter_id_conv)
qed

lemma collapse_keeps: "filter (\<lambda>c. \<not> isspace c) (collapse_spaces (Some s)) = filter (\<lambda>c. \<not> isspace c) s"
  using ws_words_ok [of s] by (simp add: collapse_words filter_join concat_ws_words)

lemma set_join: "set (join [32] ws) \<subseteq> insert 32 (set (concat ws))"
proof (cases ws)
  case Nil
  then show ?thesis by simp
next
  case (Cons w ws')
  have "set (concat (map (\<lambda>w. 32 # w) ws')) \<subseteq> insert 32 (set (concat ws'))"
    by (induction ws') auto
  then show ?thesis using Cons by (auto simp: join_Cons)
qed

lemma collapse_set: "set (collapse_spaces (Some s)) \<subseteq> insert 32 {c \<in> set s. \<not> isspace c}"
  using set_join [of "ws_words s"] by (simp add: collapse_words concat_ws_words)

lemma collapse_only_space: "\<forall>c\<in>set (collapse_spaces (Some s)). isspace c \<longrightarrow> c = 32"
  using collapse_set [of s] by auto

lemma no_double_space_word:
  assumes "\<forall>c\<in>set w. c \<noteq> 32"
  shows "no_double_space (w @ r) = no_double_space r"
  using assms
proof (induction w)
  case Nil
  then show ?case by simp
next
  case (Cons a w)
  show ?case
  proof (cases "w @ r")
    case Nil
    then show ?thesis by simp
  next
    case c: (Cons b u)
    have "no_double_space (a # b # u) = no_double_space (b # u)" using Cons.prems by simp
    then show ?thesis using Cons c by simp
  qed
qed

lemma nonspace_not_32: "\<not> isspace c \<Longrightarrow> c \<noteq> 32"
  using isspace_32 by auto

lemma no_double_space_spaced:
  assumes "\<forall>w\<in>set ws. w \<noteq> [] \<and> (\<forall>c\<in>set w. \<not> isspace c)"
  shows "no_double_space (concat (map (\<lambda>w. 32 # w) ws))"
  using assms
proof (induction ws)
  case Nil
  then show ?case by simp
next
  case (Cons w ws)
  obtain c w' where w: "w = c # w'" using Cons.prems by (cases w) auto
  have n: "\<forall>x\<in>set w. x \<noteq> 32" using Cons.prems nonspace_not_32 by auto
  have "no_double_space (w @ concat (map (\<lambda>w. 32 # w) ws))"
    using no_double_space_word [OF n] Cons by simp
  then show ?case using w n by simp
qed

lemma no_double_space_join:
  assumes "\<forall>w\<in>set ws. w \<noteq> [] \<and> (\<forall>c\<in>set w. \<not> isspace c)"
  shows "no_double_space (join [32] ws)"
proof (cases ws)
  case Nil
  then show ?thesis by simp
next
  case (Cons w ws')
  have n: "\<forall>x\<in>set w. x \<noteq> 32" using assms Cons nonspace_not_32 by auto
  show ?thesis
    using no_double_space_word [OF n] no_double_space_spaced [of ws'] assms Cons
    by (simp add: join_Cons)
qed

lemma collapse_no_double_space: "no_double_space (collapse_spaces (Some s))"
  by (simp add: collapse_words no_double_space_join ws_words_ok)

lemma last_spaced:
  assumes "\<forall>w\<in>set ws. w \<noteq> [] \<and> (\<forall>c\<in>set w. \<not> isspace c)" "ws \<noteq> []"
  shows "\<not> isspace (last (concat (map (\<lambda>w. 32 # w) ws)))"
  using assms
proof (induction ws)
  case Nil
  then show ?case by simp
next
  case (Cons w ws)
  show ?case
  proof (cases ws)
    case Nil
    then show ?thesis using Cons.prems by simp
  next
    case c: (Cons v vs)
    then have "concat (map (\<lambda>w. 32 # w) ws) \<noteq> []" by simp
    then show ?thesis using Cons c by simp
  qed
qed

lemma join_ends:
  assumes "\<forall>w\<in>set ws. w \<noteq> [] \<and> (\<forall>c\<in>set w. \<not> isspace c)" "ws \<noteq> []"
  shows "join [32] ws \<noteq> [] \<and> \<not> isspace (hd (join [32] ws)) \<and> \<not> isspace (last (join [32] ws))"
proof -
  obtain w ws' where ws: "ws = w # ws'" using assms(2) by (cases ws) auto
  have w: "w \<noteq> []" "\<forall>c\<in>set w. \<not> isspace c" using assms(1) ws by auto
  have h: "\<not> isspace (hd w)" using w by simp
  have l: "\<not> isspace (last (w @ concat (map (\<lambda>w. 32 # w) ws')))"
  proof (cases ws')
    case Nil
    then show ?thesis using w by simp
  next
    case (Cons v vs)
    then have "concat (map (\<lambda>w. 32 # w) ws') \<noteq> []" by simp
    then show ?thesis using last_spaced [of ws'] assms(1) ws Cons by simp
  qed
  show ?thesis using ws w h l by (simp add: join_Cons)
qed

lemma collapse_ends:
  assumes "collapse_spaces (Some s) \<noteq> []"
  shows "\<not> isspace (hd (collapse_spaces (Some s))) \<and> \<not> isspace (last (collapse_spaces (Some s)))"
proof -
  have "ws_words s \<noteq> []" using assms by (auto simp: collapse_words)
  then show ?thesis using join_ends [OF ws_words_ok, of s] by (simp add: collapse_words)
qed

lemma collapse_example:
  "collapse_spaces (Some [91, 32654, 93, 32, 32, 32, 32, 32, 32, 20025, 183, 24067, 26391]) =
     [91, 32654, 93, 32, 20025, 183, 24067, 26391]"
  unfolding collapse_spaces_def by (simp add: str_defs)

text \<open>
  Claim C7. Collapsing twice is collapsing once, and absent or empty input gives the empty
  string. The result is the words of the input, its maximal runs of characters that are
  not white space, joined by one space: every run of white space between two words has
  become one space and the white space at both ends is gone. So the characters that are
  not white space are kept, in order; the only white space left is the space; no two
  spaces are adjacent; and a result that is not empty neither starts nor ends with white
  space. The example of the source's docstring holds.
\<close>

theorem collapse_spaces_idempotent:
  "collapse_spaces (Some (collapse_spaces t)) = collapse_spaces t
   \<and> collapse_spaces None = [] \<and> collapse_spaces (Some []) = []
   \<and> collapse_spaces (Some s) = join [32] (ws_words s)
   \<and> (\<forall>w\<in>set (ws_words s). w \<noteq> [] \<and> (\<forall>c\<in>set w. \<not> isspace c))
   \<and> concat (ws_words s) = filter (\<lambda>c. \<not> isspace c) s
   \<and> filter (\<lambda>c. \<not> isspace c) (collapse_spaces (Some s)) = filter (\<lambda>c. \<not> isspace c) s
   \<and> (\<forall>c\<in>set (collapse_spaces (Some s)). isspace c \<longrightarrow> c = 32)
   \<and> no_double_space (collapse_spaces (Some s))
   \<and> (collapse_spaces (Some s) \<noteq> [] \<longrightarrow>
        \<not> isspace (hd (collapse_spaces (Some s))) \<and> \<not> isspace (last (collapse_spaces (Some s))))
   \<and> collapse_spaces (Some [91, 32654, 93, 32, 32, 32, 32, 32, 32, 20025, 183, 24067, 26391]) =
        [91, 32654, 93, 32, 20025, 183, 24067, 26391]"
proof -
  have e: "collapse_spaces None = [] \<and> collapse_spaces (Some []) = []"
    by (simp add: collapse_spaces_def)
  show ?thesis
    using collapse_idem [of t] e collapse_words [of s] ws_words_ok [of s] concat_ws_words [of s]
      collapse_keeps [of s] collapse_only_space [of s] collapse_no_double_space [of s]
      collapse_ends [of s] collapse_example
    by blast
qed

lemma ws_words_a_b: "ws_words (ustr ''  a   b '') = [ustr ''a'', ustr ''b'']"
  by (simp add: ws_words.simps str_defs)

theorem collapse_spaces_idempotent_witness:
  "collapse_spaces (Some (ustr ''  a   b '')) = ustr ''a b''
   \<and> collapse_spaces (Some (collapse_spaces (Some (ustr ''  a   b '')))) = ustr ''a b''
   \<and> ws_words (ustr ''  a   b '') = [ustr ''a'', ustr ''b'']
   \<and> collapse_spaces (Some (ustr ''  a   b '')) \<noteq> []
   \<and> \<not> isspace (hd (collapse_spaces (Some (ustr ''  a   b ''))))"
proof -
  note t = collapse_spaces_idempotent [of "Some (ustr ''  a   b '')" "ustr ''  a   b ''"]
  have 1: "collapse_spaces (Some (ustr ''  a   b '')) = join [32] (ws_words (ustr ''  a   b ''))"
    using t by blast
  have 2: "collapse_spaces (Some (ustr ''  a   b '')) = ustr ''a b''"
    unfolding 1 ws_words_a_b by (simp add: ustr_def)
  have 3: "collapse_spaces (Some (collapse_spaces (Some (ustr ''  a   b '')))) =
      collapse_spaces (Some (ustr ''  a   b ''))"
    using t by blast
  note 4 = ws_words_a_b
  have 5: "collapse_spaces (Some (ustr ''  a   b '')) \<noteq> []"
    unfolding 2 by (simp add: ustr_def)
  have 6: "\<not> isspace (hd (collapse_spaces (Some (ustr ''  a   b ''))))"
    using t 5 by blast
  show ?thesis using 2 3 4 5 6 by simp
qed

section \<open>Splitting names\<close>

lemma strip_Nil_iff: "strip v = [] \<longleftrightarrow> (\<forall>c\<in>set v. isspace c)"
proof (cases "dropWhile isspace v")
  case Nil
  then have "\<forall>c\<in>set v. isspace c" by (simp add: dropWhile_eq_Nil_conv)
  then show ?thesis unfolding strip_def lstrip_def rstrip_def Nil by simp
next
  case (Cons c cs)
  have n: "\<not> isspace c" using Cons by (rule dropWhile_Cons_nonspace)
  have "\<not> (\<forall>x\<in>set (rev (c # cs)). isspace x)" using n by auto
  then have "dropWhile isspace (rev (c # cs)) \<noteq> []"
    by (simp only: dropWhile_eq_Nil_conv not_False_eq_True)
  moreover have "\<not> (\<forall>c\<in>set v. isspace c)"
    using Cons dropWhile_eq_Nil_conv [of isspace v] by auto
  ultimately show ?thesis using Cons n by (simp add: strip_def lstrip_def rstrip_def)
qed

lemma nonblank_words: "strip v \<noteq> [] \<longleftrightarrow> ws_words v \<noteq> []"
  by (simp add: strip_Nil_iff ws_words_Nil_iff)

lemma collapse_Nil_iff: "collapse_spaces (Some v) = [] \<longleftrightarrow> ws_words v = []"
proof (cases "ws_words v")
  case Nil
  then show ?thesis by (simp add: collapse_words)
next
  case (Cons w ws)
  then have "w \<noteq> []" using ws_words_ok [of v] by simp
  then show ?thesis using Cons by (simp add: collapse_words join_Cons)
qed

lemma names_as_words:
  "map (\<lambda>v. collapse_spaces (Some v)) (filter (\<lambda>v. strip v \<noteq> []) segs) =
   map (join [32]) (filter (\<lambda>w. w \<noteq> []) (map ws_words segs))"
  by (induction segs) (simp_all add: collapse_words nonblank_words)

lemma split_on_hd_tl: "split_on sep s = hd (split_on sep s) # tl (split_on sep s)"
  using split_on_not_Nil [of sep s] by simp

lemma hd_split_on_Cons:
  "hd (split_on sep (c # cs)) = (if c = sep then [] else c # hd (split_on sep cs))"
  using split_on_not_Nil [of sep cs] by (cases "split_on sep cs") simp_all

lemma tl_split_on_Cons:
  "tl (split_on sep (c # cs)) = (if c = sep then split_on sep cs else tl (split_on sep cs))"
  using split_on_not_Nil [of sep cs] by (cases "split_on sep cs") simp_all

lemma split_on_no_sep: "\<forall>p\<in>set (split_on sep s). sep \<notin> set p"
proof (induction s)
  case Nil
  then show ?case by simp
next
  case (Cons c cs)
  then show ?case using split_on_not_Nil [of sep cs]
    by (cases "split_on sep cs") auto
qed

lemma split_on_absent: "sep \<notin> set s \<Longrightarrow> split_on sep s = [s]"
  by (induction s) auto

lemma replace_absent:
  assumes "\<exists>x\<in>set old. x \<notin> set s"
  shows "replace old new s = s"
  using assms
proof (induction s)
  case Nil
  then show ?case by simp
next
  case (Cons c cs)
  have "take (length old) (c # cs) \<noteq> old"
  proof
    assume "take (length old) (c # cs) = old"
    then have "set old \<subseteq> set (c # cs)" by (metis set_take_subset)
    then show False using Cons.prems by auto
  qed
  moreover have "\<exists>x\<in>set old. x \<notin> set cs" using Cons.prems by auto
  ultimately show ?case using Cons.IH by simp
qed

lemma ws_words_step:
  assumes "\<not> isspace a"
  shows "ws_words (a # s) =
    (if s = [] \<or> isspace (hd s) then [a] # ws_words s
     else (a # hd (ws_words s)) # tl (ws_words s))"
proof (cases "s = [] \<or> isspace (hd s)")
  case True
  then show ?thesis using ws_words_word [of "[a]" s] assms by simp
next
  case False
  then obtain b s' where s: "s = b # s'" "\<not> isspace b" by (cases s) auto
  have d1: "dropWhile isspace (a # s) = a # s" using assms by simp
  have d2: "dropWhile isspace s = b # s'" using s by simp
  show ?thesis using False s ws_words_Cons [OF d1] ws_words_Cons [OF d2] by simp
qed

lemma ws_words_append_space: "ws_words (x @ [32]) = ws_words x"
proof (induction x)
  case Nil
  then show ?case by (simp add: ws_words_space_Cons isspace_32 ws_words_Nil)
next
  case (Cons a x)
  show ?case
  proof (cases "isspace a")
    case True
    then show ?thesis using Cons by (simp add: ws_words_space_Cons)
  next
    case False
    show ?thesis
    proof (cases x)
      case Nil
      then show ?thesis using False
        by (simp add: ws_words_step isspace_32 ws_words_space_Cons ws_words_Nil)
    next
      case c: (Cons b y)
      then show ?thesis using False Cons by (simp add: ws_words_step)
    qed
  qed
qed

lemma take_3:
  assumes "take 3 s = [a, b, c]"
  shows "s = a # b # c # drop 3 s"
  using append_take_drop_id [of 3 s] assms by simp

lemma split_on_Cons_other:
  assumes "c \<noteq> sep"
  shows "split_on sep (c # cs) = (c # hd (split_on sep cs)) # tl (split_on sep cs)"
  using assms split_on_not_Nil [of sep cs] by (cases "split_on sep cs") simp_all

lemma split_space_slash_space:
  "split_on 47 (32 # 47 # 32 # t) = [32] # (32 # hd (split_on 47 t)) # tl (split_on 47 t)"
proof -
  have 1: "split_on 47 (32 # t) = (32 # hd (split_on 47 t)) # tl (split_on 47 t)"
    by (rule split_on_Cons_other) simp
  have 2: "split_on 47 (47 # 32 # t) = [] # split_on 47 (32 # t)" by simp
  have 3: "split_on 47 (32 # 47 # 32 # t) =
      (32 # hd (split_on 47 (47 # 32 # t))) # tl (split_on 47 (47 # 32 # t))"
    by (rule split_on_Cons_other) simp
  show ?thesis unfolding 3 2 1 by simp
qed

lemma map_split_eq:
  assumes "ws_words (hd (split_on 47 a)) = ws_words (hd (split_on 47 b))"
    "map ws_words (tl (split_on 47 a)) = map ws_words (tl (split_on 47 b))"
  shows "map ws_words (split_on 47 a) = map ws_words (split_on 47 b)"
proof -
  obtain x xs where a: "split_on 47 a = x # xs"
    using split_on_not_Nil [of 47 a] by (cases "split_on 47 a") auto
  obtain y ys where b: "split_on 47 b = y # ys"
    using split_on_not_Nil [of 47 b] by (cases "split_on 47 b") auto
  show ?thesis using assms a b by simp
qed

lemma replace_hit:
  assumes "old \<noteq> []" "take (length old) (c # cs) = old"
  shows "replace old new (c # cs) = new @ replace old new (drop (length old) (c # cs))"
  using assms by simp

lemma replace_miss:
  assumes "\<not> (old \<noteq> [] \<and> take (length old) (c # cs) = old)"
  shows "replace old new (c # cs) = c # replace old new cs"
  using assms by auto

lemma split_replace:
  "(\<forall>pre. ws_words (pre @ hd (split_on 47 (replace [32, 47, 32] [47] s))) =
          ws_words (pre @ hd (split_on 47 s)))
   \<and> map ws_words (tl (split_on 47 (replace [32, 47, 32] [47] s))) =
     map ws_words (tl (split_on 47 s))"
proof (induction "[32, 47, 32] :: ustring" "[47] :: ustring" s rule: replace.induct)
  case 1
  then show ?case by simp
next
  case (2 c cs)
  show ?case
  proof (cases "take 3 (c # cs) = [32, 47, 32]")
    case True
    have len: "length ([32, 47, 32] :: ustring) = 3" by simp
    have pre: "([32, 47, 32] :: ustring) \<noteq> []
        \<and> take (length ([32, 47, 32] :: ustring)) (c # cs) = [32, 47, 32]"
      unfolding len by (rule conjI) (simp, rule True)
    obtain t where s: "c # cs = 32 # 47 # 32 # t" and dt: "drop 3 (c # cs) = t"
      using take_3 [OF True] by blast
    note ih = 2(1) [OF pre, unfolded len dt]
    have r: "replace [32, 47, 32] [47] (c # cs) = 47 # replace [32, 47, 32] [47] t"
      using replace_hit [OF conjunct1 [OF pre] conjunct2 [OF pre], of "[47]", unfolded len dt]
      by (simp only: append_Cons append_Nil)
    have h1: "hd (split_on 47 (replace [32, 47, 32] [47] (c # cs))) = []"
      unfolding r by (simp add: hd_split_on_Cons del: split_on.simps)
    have t1: "tl (split_on 47 (replace [32, 47, 32] [47] (c # cs))) =
        split_on 47 (replace [32, 47, 32] [47] t)"
      unfolding r by (simp add: tl_split_on_Cons del: split_on.simps)
    have sp: "split_on 47 (c # cs) = [32] # (32 # hd (split_on 47 t)) # tl (split_on 47 t)"
      unfolding s by (rule split_space_slash_space)
    have h2: "hd (split_on 47 (c # cs)) = [32]"
      unfolding sp by simp
    have t2: "tl (split_on 47 (c # cs)) = (32 # hd (split_on 47 t)) # tl (split_on 47 t)"
      unfolding sp by simp
    have a: "\<forall>pre. ws_words (pre @ []) = ws_words (pre @ [32])"
      by (simp add: ws_words_append_space)
    have ih0: "ws_words (hd (split_on 47 (replace [32, 47, 32] [47] t))) =
        ws_words (hd (split_on 47 t))"
      using ih [THEN conjunct1, rule_format, of "[]"] by simp
    have "map ws_words (split_on 47 (replace [32, 47, 32] [47] t)) = map ws_words (split_on 47 t)"
      using ih0 ih [THEN conjunct2] by (rule map_split_eq)
    also have "\<dots> = ws_words (hd (split_on 47 t)) # map ws_words (tl (split_on 47 t))"
      using split_on_not_Nil [of 47 t] by (cases "split_on 47 t") simp_all
    also have "\<dots> = map ws_words ((32 # hd (split_on 47 t)) # tl (split_on 47 t))"
      by (simp add: ws_words_space_Cons isspace_32)
    finally have b: "map ws_words (split_on 47 (replace [32, 47, 32] [47] t)) =
        map ws_words ((32 # hd (split_on 47 t)) # tl (split_on 47 t))" .
    show ?thesis unfolding h1 t1 h2 t2 using a b by blast
  next
    case False
    have len3: "length ([32, 47, 32] :: ustring) = 3" by simp
    have npre: "\<not> (([32, 47, 32] :: ustring) \<noteq> []
        \<and> take (length ([32, 47, 32] :: ustring)) (c # cs) = [32, 47, 32])"
      unfolding len3 using False by blast
    note ih = 2(2) [OF npre]
    have r: "replace [32, 47, 32] [47] (c # cs) = c # replace [32, 47, 32] [47] cs"
      using npre by (rule replace_miss)
    show ?thesis
    proof (cases "c = 47")
      case True
      have ih0: "ws_words (hd (split_on 47 (replace [32, 47, 32] [47] cs))) =
          ws_words (hd (split_on 47 cs))"
        using ih [THEN conjunct1, rule_format, of "[]"] by simp
      have "map ws_words (split_on 47 (replace [32, 47, 32] [47] cs)) =
          map ws_words (split_on 47 cs)"
        using ih0 ih [THEN conjunct2] by (rule map_split_eq)
      then show ?thesis unfolding r using True
        by (simp add: hd_split_on_Cons tl_split_on_Cons del: split_on.simps)
    next
      case f: False
      have "\<forall>pre. ws_words (pre @ c # hd (split_on 47 (replace [32, 47, 32] [47] cs))) =
          ws_words (pre @ c # hd (split_on 47 cs))"
      proof
        fix pre
        show "ws_words (pre @ c # hd (split_on 47 (replace [32, 47, 32] [47] cs))) =
          ws_words (pre @ c # hd (split_on 47 cs))"
          using ih [THEN conjunct1, rule_format, of "pre @ [c]"] by simp
      qed
      then show ?thesis unfolding r using f ih [THEN conjunct2]
        by (simp add: hd_split_on_Cons tl_split_on_Cons del: split_on.simps)
    qed
  qed
qed

lemma split_replace_words:
  "map ws_words (split_on 47 (replace [32, 47, 32] [47] s)) = map ws_words (split_on 47 s)"
proof -
  have "ws_words (hd (split_on 47 (replace [32, 47, 32] [47] s))) = ws_words (hd (split_on 47 s))"
    using split_replace [of s, THEN conjunct1, rule_format, of "[]"] by simp
  then show ?thesis
    using split_replace [of s, THEN conjunct2] by (rule map_split_eq)
qed

lemma split_names_direct:
  "split_names raw =
     map (\<lambda>v. collapse_spaces (Some v)) (filter (\<lambda>v. strip v \<noteq> []) (split_on 47 raw))"
  unfolding split_names_def Let_def names_as_words split_replace_words ..

lemma split_names_elem:
  assumes "n \<in> set (split_names raw)"
  shows "\<exists>v\<in>set (split_on 47 raw). strip v \<noteq> [] \<and> n = collapse_spaces (Some v)"
  using assms unfolding split_names_direct by auto

lemma split_names_collapsed:
  assumes "n \<in> set (split_names raw)"
  shows "collapse_spaces (Some n) = n \<and> 47 \<notin> set n"
proof -
  obtain v where v: "v \<in> set (split_on 47 raw)" "n = collapse_spaces (Some v)"
    using split_names_elem [OF assms] by blast
  have 1: "collapse_spaces (Some n) = n" unfolding v(2) by (rule collapse_idem)
  have "47 \<notin> set v" using split_on_no_sep [of 47 raw] v(1) by blast
  then have 2: "47 \<notin> set n" using collapse_set [of v] v(2) by auto
  show ?thesis using 1 2 by simp
qed

lemma split_names_nonempty:
  assumes "n \<in> set (split_names raw)"
  shows "n \<noteq> [] \<and> \<not> isspace (hd n) \<and> \<not> isspace (last n)"
proof -
  obtain v where v: "strip v \<noteq> []" "n = collapse_spaces (Some v)"
    using split_names_elem [OF assms] by blast
  have "ws_words v \<noteq> []" using v(1) by (simp add: nonblank_words)
  then have 1: "n \<noteq> []" using v(2) by (simp add: collapse_Nil_iff)
  then show ?thesis using collapse_ends [of v] v(2) by simp
qed

lemma split_names_single:
  assumes "47 \<notin> set raw" "strip raw \<noteq> []"
  shows "split_names raw = [collapse_spaces (Some raw)]"
  unfolding split_names_direct using assms by (simp add: split_on_absent)

lemma split_names_A_B: "split_names (ustr ''A / B'') = [ustr ''A'', ustr ''B'']"
  unfolding split_names_def collapse_spaces_def Let_def by (simp add: str_defs)

lemma split_names_A__B: "split_names (ustr ''A//B'') = [ustr ''A'', ustr ''B'']"
  unfolding split_names_def collapse_spaces_def Let_def by (simp add: str_defs)

lemma split_names_A_slash: "split_names (ustr ''A/'') = [ustr ''A'']"
  unfolding split_names_def collapse_spaces_def Let_def by (simp add: str_defs)

lemma process_label_author:
  assumes "raw_value_of (next_siblings span) \<noteq> []"
    "startswith (rstrip is_colon (label_text span)) [20316, 32773]"
  shows "author (process_label span b) = Some (split_names (raw_value_of (next_siblings span)))"
  using assms unfolding process_label_def Let_def by simp

lemma process_label_translator:
  assumes "raw_value_of (next_siblings span) \<noteq> []"
    "\<not> startswith (rstrip is_colon (label_text span)) [20316, 32773]"
    "startswith (rstrip is_colon (label_text span)) [35793, 32773]"
  shows "translator (process_label span b) =
    Some (split_names (raw_value_of (next_siblings span)))"
  using assms unfolding process_label_def Let_def by simp

text \<open>
  Claim C8. The names of a raw value are its segments between slashes, in order, each
  collapsed, the blank segments left out: replacing space-slash-space by a slash first
  changes nothing of that. Every name is collapsed and holds no slash. The raw value
  A / B gives the two names A and B, and a raw value with no slash that is not blank
  gives one name, itself collapsed. A label that starts with the author prefix stores
  these names as the authors, one that starts with the translator prefix as the
  translators.
\<close>

theorem split_names_ordered:
  "split_names raw =
     map (\<lambda>v. collapse_spaces (Some v)) (filter (\<lambda>v. strip v \<noteq> []) (split_on 47 raw))
   \<and> (\<forall>n\<in>set (split_names raw). collapse_spaces (Some n) = n \<and> 47 \<notin> set n)
   \<and> split_names (ustr ''A / B'') = [ustr ''A'', ustr ''B'']
   \<and> (47 \<notin> set raw \<and> strip raw \<noteq> [] \<longrightarrow> split_names raw = [collapse_spaces (Some raw)])
   \<and> (raw_value_of (next_siblings span) \<noteq> []
        \<and> startswith (rstrip is_colon (label_text span)) [20316, 32773] \<longrightarrow>
        author (process_label span b) = Some (split_names (raw_value_of (next_siblings span))))
   \<and> (raw_value_of (next_siblings span') \<noteq> []
        \<and> \<not> startswith (rstrip is_colon (label_text span')) [20316, 32773]
        \<and> startswith (rstrip is_colon (label_text span')) [35793, 32773] \<longrightarrow>
        translator (process_label span' b) =
          Some (split_names (raw_value_of (next_siblings span'))))"
  using split_names_direct [of raw] split_names_collapsed [of _ raw] split_names_A_B
    split_names_single [of raw] process_label_author [of span b]
    process_label_translator [of span' b]
  by blast

lemma author_span_value:
  "raw_value_of [NavigableString (ustr '': A / B'')] = ustr ''A / B''"
  unfolding raw_value_of_def by (simp add: str_defs is_colon_def)

theorem split_names_ordered_witness:
  "split_names (ustr ''A / B'') = [ustr ''A'', ustr ''B'']
   \<and> 47 \<notin> set (ustr ''Dan Brown'') \<and> strip (ustr ''Dan Brown'') \<noteq> []
   \<and> split_names (ustr ''Dan Brown'') = [ustr ''Dan Brown'']
   \<and> raw_value_of (next_siblings \<lparr>label_text = [20316, 32773, 58],
          next_siblings = [NavigableString (ustr '': A / B'')]\<rparr>) \<noteq> []
   \<and> startswith (rstrip is_colon (label_text \<lparr>label_text = [20316, 32773, 58],
          next_siblings = [NavigableString (ustr '': A / B'')]\<rparr>)) [20316, 32773]
   \<and> author (process_label \<lparr>label_text = [20316, 32773, 58],
          next_siblings = [NavigableString (ustr '': A / B'')]\<rparr> empty_book) =
       Some [ustr ''A'', ustr ''B'']
   \<and> raw_value_of (next_siblings \<lparr>label_text = [35793, 32773],
          next_siblings = [NavigableString (ustr '': A / B'')]\<rparr>) \<noteq> []
   \<and> \<not> startswith (rstrip is_colon (label_text \<lparr>label_text = [35793, 32773],
          next_siblings = [NavigableString (ustr '': A / B'')]\<rparr>)) [20316, 32773]
   \<and> startswith (rstrip is_colon (label_text \<lparr>label_text = [35793, 32773],
          next_siblings = [NavigableString (ustr '': A / B'')]\<rparr>)) [35793, 32773]
   \<and> translator (process_label \<lparr>label_text = [35793, 32773],
          next_siblings = [NavigableString (ustr '': A / B'')]\<rparr> empty_book) =
       Some [ustr ''A'', ustr ''B'']"
proof -
  let ?sa = "\<lparr>label_text = [20316, 32773, 58],
          next_siblings = [NavigableString (ustr '': A / B'')]\<rparr>"
  let ?st = "\<lparr>label_text = [35793, 32773],
          next_siblings = [NavigableString (ustr '': A / B'')]\<rparr>"
  note t1 = split_names_ordered [of "ustr ''A / B''" ?sa empty_book ?st]
  note t2 = split_names_ordered [of "ustr ''Dan Brown''" ?sa empty_book ?st]
  have 1: "split_names (ustr ''A / B'') = [ustr ''A'', ustr ''B'']"
    using t1 by blast
  have 2: "47 \<notin> set (ustr ''Dan Brown'') \<and> strip (ustr ''Dan Brown'') \<noteq> []"
    by (simp add: str_defs)
  have "split_names (ustr ''Dan Brown'') = [collapse_spaces (Some (ustr ''Dan Brown''))]"
    using t2 2 by blast
  moreover have "collapse_spaces (Some (ustr ''Dan Brown'')) = ustr ''Dan Brown''"
    unfolding collapse_spaces_def by (simp add: str_defs)
  ultimately have 3: "split_names (ustr ''Dan Brown'') = [ustr ''Dan Brown'']" by simp
  have v: "raw_value_of (next_siblings ?sa) = ustr ''A / B''"
    "raw_value_of (next_siblings ?st) = ustr ''A / B''"
    by (simp_all add: author_span_value)
  have 4: "raw_value_of (next_siblings ?sa) \<noteq> []
      \<and> startswith (rstrip is_colon (label_text ?sa)) [20316, 32773]"
    unfolding v by (simp add: ustr_def startswith_def rstrip_def is_colon_def)
  have 5: "author (process_label ?sa empty_book) = Some [ustr ''A'', ustr ''B'']"
    using t1 4 unfolding v split_names_A_B by blast
  have 6: "raw_value_of (next_siblings ?st) \<noteq> []
      \<and> \<not> startswith (rstrip is_colon (label_text ?st)) [20316, 32773]
      \<and> startswith (rstrip is_colon (label_text ?st)) [35793, 32773]"
    unfolding v by (simp add: ustr_def startswith_def rstrip_def is_colon_def)
  have 7: "translator (process_label ?st empty_book) = Some [ustr ''A'', ustr ''B'']"
    using t1 6 unfolding v split_names_A_B by blast
  show ?thesis using 1 2 3 4 5 6 7 by blast
qed

section \<open>No empty name\<close>

lemma process_label_names:
  assumes "names_nonempty b"
  shows "names_nonempty (process_label span b)"
  using assms split_names_nonempty
  unfolding process_label_def Let_def names_nonempty_def by auto

lemma foldl_process_label_names:
  assumes "names_nonempty b"
  shows "names_nonempty (foldl (\<lambda>b span. process_label span b) b labels)"
  using assms by (induction labels arbitrary: b) (simp_all add: process_label_names)

lemma fetch_names:
  assumes "fetch_book_from_douban http_get parse isbn = Inr b"
  shows "names_nonempty b"
proof -
  obtain tt l where "b = foldl (\<lambda>b span. process_label span b)
     \<lparr>title = tt, publisher = Some [], author = Some [], translator = Some [],
      pubdate = None, producer = None, binding = None, pages = None\<rparr> l"
    using assms unfolding fetch_cases
    by (auto split: get_outcome.splits if_splits)
  moreover have "names_nonempty \<lparr>title = tt,
      publisher = Some [], author = Some [], translator = Some [],
      pubdate = None, producer = None, binding = None, pages = None\<rparr>"
    by (simp add: names_nonempty_def)
  ultimately show ?thesis by (simp add: foldl_process_label_names)
qed

text \<open>
  Claim C10. No name is empty: every name has a first and a last character, neither of
  them white space. So A//B gives the names A and B, and A/ gives the name A. In every
  book that the fetch returns, no author and no translator is the empty string.
\<close>

theorem split_names_no_empty:
  "(\<forall>n\<in>set (split_names raw). n \<noteq> [] \<and> \<not> isspace (hd n) \<and> \<not> isspace (last n))
   \<and> split_names (ustr ''A//B'') = [ustr ''A'', ustr ''B'']
   \<and> split_names (ustr ''A/'') = [ustr ''A'']
   \<and> (fetch_book_from_douban http_get parse isbn = Inr b \<longrightarrow>
        (\<exists>as. author b = Some as \<and> (\<forall>n\<in>set as. n \<noteq> []))
        \<and> (\<exists>ts. translator b = Some ts \<and> (\<forall>n\<in>set ts. n \<noteq> [])))"
  using split_names_nonempty [of _ raw] split_names_A__B split_names_A_slash
    fetch_names [of http_get parse isbn b]
  unfolding names_nonempty_def by blast

lemma fetch_two_authors:
  "fetch_book_from_douban (\<lambda>u. Response 200 [])
     (\<lambda>t. \<lparr>title_tag = Some [84],
            info_div = Some [\<lparr>label_text = [20316, 32773],
                               next_siblings = [NavigableString (ustr ''A//B'')]\<rparr>]\<rparr>) [57] =
   Inr \<lparr>title = Some [84], publisher = Some [], author = Some [ustr ''A'', ustr ''B''],
        translator = Some [], pubdate = None, producer = None, binding = None, pages = None\<rparr>"
  unfolding fetch_book_from_douban_def process_label_def raw_value_of_def split_names_def
    collapse_spaces_def Let_def
  by (simp add: str_defs is_colon_def startswith_def)

theorem split_names_no_empty_witness:
  "split_names (ustr ''A//B'') = [ustr ''A'', ustr ''B'']
   \<and> fetch_book_from_douban (\<lambda>u. Response 200 [])
     (\<lambda>t. \<lparr>title_tag = Some [84],
            info_div = Some [\<lparr>label_text = [20316, 32773],
                               next_siblings = [NavigableString (ustr ''A//B'')]\<rparr>]\<rparr>) [57] =
      Inr \<lparr>title = Some [84], publisher = Some [], author = Some [ustr ''A'', ustr ''B''],
        translator = Some [], pubdate = None, producer = None, binding = None, pages = None\<rparr>
   \<and> (\<exists>as. author \<lparr>title = Some [84], publisher = Some [], author = Some [ustr ''A'', ustr ''B''],
        translator = Some [], pubdate = None, producer = None, binding = None, pages = None\<rparr>
          = Some as \<and> (\<forall>n\<in>set as. n \<noteq> []))"
proof -
  note t = split_names_no_empty [of "ustr ''A//B''" "\<lambda>u. Response 200 []"
     "\<lambda>t. \<lparr>title_tag = Some [84],
            info_div = Some [\<lparr>label_text = [20316, 32773],
                               next_siblings = [NavigableString (ustr ''A//B'')]\<rparr>]\<rparr>" "[57]"
     "\<lparr>title = Some [84], publisher = Some [], author = Some [ustr ''A'', ustr ''B''],
        translator = Some [], pubdate = None, producer = None, binding = None, pages = None\<rparr>"]
  have 2: "split_names (ustr ''A//B'') = [ustr ''A'', ustr ''B'']"
    using t by (elim conjE)
  have 4: "\<exists>as. author \<lparr>title = Some [84], publisher = Some [], author = Some [ustr ''A'', ustr ''B''],
        translator = Some [], pubdate = None, producer = None, binding = None, pages = None\<rparr>
          = Some as \<and> (\<forall>n\<in>set as. n \<noteq> [])"
    using t [THEN conjunct2, THEN conjunct2, THEN conjunct2, THEN mp, OF fetch_two_authors]
    by (rule conjunct1)
  show ?thesis by (intro conjI 2 fetch_two_authors 4)
qed

section \<open>The page count\<close>

lemma space_not_decimal:
  assumes "isspace c"
  shows "decimal_value c = None"
proof -
  consider "c \<le> 32" | "c = 133" | "c = 160" | "c = 5760" | "8192 \<le> c" "c \<le> 8202"
    | "c = 8232" | "c = 8233" | "c = 8239" | "c = 8287" | "c = 12288"
    using assms unfolding isspace_def by linarith
  then show ?thesis
    by cases (simp_all add: decimal_value_def decimal_zeros_def)
qed

lemma decimal_not_space: "isdecimal c \<Longrightarrow> \<not> isspace c"
  using space_not_decimal [of c] by (auto simp: isdecimal_def)

lemma decimal_not_int_space: "isdecimal c \<Longrightarrow> \<not> int_space c"
  using decimal_not_space [of c] by (auto simp: int_space_def isspace_def)

lemma decimal_not_sign:
  assumes "isdecimal c"
  shows "c \<noteq> 43 \<and> c \<noteq> 45 \<and> c \<noteq> 95"
proof -
  have "decimal_value 43 = None \<and> decimal_value 45 = None \<and> decimal_value 95 = None"
    by (simp add: decimal_value_def decimal_zeros_def)
  then show ?thesis using assms by (auto simp: isdecimal_def)
qed

lemma filter_dropWhile_neg: "filter (\<lambda>c. \<not> q c) (dropWhile q s) = filter (\<lambda>c. \<not> q c) s"
  by (induction s) auto

lemma re_sub_filter: "re_sub_runs q [] s = filter (\<lambda>c. \<not> q c) s"
  by (induction q "[] :: ustring" s rule: re_sub_runs.induct) (simp_all add: filter_dropWhile_neg)

lemma filter_filter_imp:
  assumes "\<And>c. p c \<Longrightarrow> q c"
  shows "filter p (filter q s) = filter p s"
  using assms by (induction s) auto

lemma extract_pages_filter: "extract_pages raw = filter isdecimal raw"
proof -
  have "extract_pages raw = filter isdecimal (collapse_spaces (Some raw))"
    by (simp add: extract_pages_def re_sub_filter)
  also have "\<dots> = filter isdecimal (filter (\<lambda>c. \<not> isspace c) (collapse_spaces (Some raw)))"
    by (rule filter_filter_imp [symmetric]) (rule decimal_not_space)
  also have "\<dots> = filter isdecimal (filter (\<lambda>c. \<not> isspace c) raw)"
    by (simp only: collapse_keeps)
  also have "\<dots> = filter isdecimal raw"
    by (rule filter_filter_imp) (rule decimal_not_space)
  finally show ?thesis .
qed

lemma extract_pages_338: "extract_pages (ustr ''338'' @ [39029]) = ustr ''338''"
  unfolding extract_pages_filter
  by (simp add: ustr_def isdecimal_def decimal_value_def decimal_zeros_def)

lemma strip_nonspace:
  assumes "\<forall>c\<in>set d. \<not> isspace c"
  shows "strip d = d"
proof -
  have 1: "dropWhile isspace d = d" using assms by (cases d) auto
  have 2: "dropWhile isspace (rev d) = rev d" using assms by (cases "rev d") (auto simp: in_set_conv_decomp)
  show ?thesis by (simp add: strip_def lstrip_def rstrip_def 1 2)
qed

lemma no_double_underscore_absent: "95 \<notin> set d \<Longrightarrow> no_double_underscore d"
  by (induction d rule: no_double_underscore.induct) auto

lemma py_int_digits:
  assumes "d \<noteq> []" "\<forall>c\<in>set d. isdecimal c" "length d \<le> 4300"
  shows "py_int d = Some (int (digits_value d))"
proof -
  obtain c cs where d: "d = c # cs" using assms(1) by (cases d) auto
  have c: "isdecimal c" using assms(2) d by simp
  have 1: "dropWhile int_space d = d" using d decimal_not_int_space [OF c] by simp
  have 2: "hd d \<noteq> 43 \<and> hd d \<noteq> 45 \<and> hd d \<noteq> 95" using d decimal_not_sign [OF c] by simp
  have 3: "takeWhile digit_or_underscore d = d"
    using assms(2) by (simp add: takeWhile_eq_all_conv digit_or_underscore_def)
  have 4: "dropWhile digit_or_underscore d = []"
    using assms(2) by (simp add: dropWhile_eq_Nil_conv digit_or_underscore_def)
  have u: "95 \<notin> set d" using assms(2) decimal_not_sign by blast
  have 5: "filter (\<lambda>c. c \<noteq> 95) d = d" using u by (auto simp: filter_id_conv)
  have "isdecimal (last d)" using assms(1) assms(2) by simp
  then have 6: "last d \<noteq> 95" using decimal_not_sign by blast
  have 7: "no_double_underscore d" using u by (rule no_double_underscore_absent)
  show ?thesis
    unfolding py_int_def Let_def 1
    using assms(1) assms(3) 2 by (simp add: 3 4 5 6 7 int_max_str_digits_def)
qed

lemma py_int_338: "py_int (ustr ''338'') = Some 338"
  unfolding py_int_def Let_def by (simp add: str_defs int_defs)

lemma build_pages:
  "map_of (build_notion_properties b) key_pages =
     Some (number_property (Some (case pages b of None \<Rightarrow> [] | Some p \<Rightarrow> strip p)))"
  using build_lookup [of b] by simp

lemma build_pages_Some:
  assumes "pages b = Some p"
  shows "map_of (build_notion_properties b) key_pages =
     Some (NumberProp (if strip p = [] then None else py_int (strip p)))"
  using assms by (simp add: build_pages number_property_def)

lemma extract_pages_digits: "\<forall>c\<in>set (extract_pages raw). isdecimal c"
  by (simp add: extract_pages_filter)

lemma strip_extract_pages: "strip (extract_pages raw) = extract_pages raw"
  by (rule strip_nonspace) (use extract_pages_digits decimal_not_space in blast)

lemma process_label_pages:
  assumes "raw_value_of (next_siblings span) \<noteq> []"
    "startswith (rstrip is_colon (label_text span)) [39029, 25968]"
  shows "pages (process_label span b) = Some (extract_pages (raw_value_of (next_siblings span)))"
proof -
  obtain r where r: "rstrip is_colon (label_text span) = 39029 # 25968 # r"
    using assms(2) unfolding startswith_def
    by (metis append_take_drop_id append_Cons append_Nil)
  show ?thesis
    using assms(1) unfolding process_label_def Let_def r by (simp add: startswith_def)
qed

text \<open>
  Claim C9. The page count that the fetch keeps is the decimal digits of the raw value,
  in order, and nothing else: 338 followed by the character U+9875 gives 338, a raw
  value with no digit gives the empty string, and a label that starts with the page
  prefix stores this string as the pages. The payload's number is null for the empty
  string; for a string of digits that is not empty it is the integer they write (up to
  the 4300 digits that \<open>int\<close> accepts). For any other stored string it is what
  \<open>int\<close> makes of the stripped string, null when \<open>int\<close> refuses it.
\<close>

theorem extract_pages_number:
  "extract_pages raw = filter isdecimal raw
   \<and> extract_pages (ustr ''338'' @ [39029]) = ustr ''338''
   \<and> ((\<forall>c\<in>set raw. \<not> isdecimal c) \<longrightarrow> extract_pages raw = [])
   \<and> (raw_value_of (next_siblings span) \<noteq> []
        \<and> startswith (rstrip is_colon (label_text span)) [39029, 25968] \<longrightarrow>
        pages (process_label span b0) =
          Some (extract_pages (raw_value_of (next_siblings span))))
   \<and> (pages b = Some (extract_pages raw) \<longrightarrow>
        map_of (build_notion_properties b) key_pages =
          Some (NumberProp (if extract_pages raw = [] then None
                            else py_int (extract_pages raw))))
   \<and> (extract_pages raw \<noteq> [] \<and> length (extract_pages raw) \<le> 4300 \<longrightarrow>
        py_int (extract_pages raw) = Some (int (digits_value (extract_pages raw))))
   \<and> (pages b' = Some p \<longrightarrow>
        map_of (build_notion_properties b') key_pages =
          Some (NumberProp (if strip p = [] then None else py_int (strip p))))
   \<and> py_int (ustr ''338'') = Some 338"
proof -
  have 3: "(\<forall>c\<in>set raw. \<not> isdecimal c) \<longrightarrow> extract_pages raw = []"
    by (simp add: extract_pages_filter filter_empty_conv)
  have 5: "pages b = Some (extract_pages raw) \<longrightarrow>
        map_of (build_notion_properties b) key_pages =
          Some (NumberProp (if extract_pages raw = [] then None
                            else py_int (extract_pages raw)))"
    using build_pages_Some [of b "extract_pages raw"] by (simp add: strip_extract_pages)
  have 6: "extract_pages raw \<noteq> [] \<and> length (extract_pages raw) \<le> 4300 \<longrightarrow>
        py_int (extract_pages raw) = Some (int (digits_value (extract_pages raw)))"
    using py_int_digits [of "extract_pages raw"] extract_pages_digits [of raw] by blast
  show ?thesis
    using extract_pages_filter [of raw] extract_pages_338 3 process_label_pages [of span b0]
      5 6 build_pages_Some [of b' p] py_int_338
    by blast
qed

theorem extract_pages_number_witness:
  "extract_pages (ustr ''338'' @ [39029]) = ustr ''338''
   \<and> \<not> isdecimal 39029 \<and> \<not> isdecimal 25968 \<and> extract_pages [39029, 25968] = []
   \<and> pages (empty_book\<lparr>pages := Some (ustr ''338'')\<rparr>) = Some (extract_pages (ustr ''338'' @ [39029]))
   \<and> extract_pages (ustr ''338'' @ [39029]) \<noteq> []
   \<and> length (extract_pages (ustr ''338'' @ [39029])) \<le> 4300
   \<and> map_of (build_notion_properties (empty_book\<lparr>pages := Some (ustr ''338'')\<rparr>)) key_pages =
       Some (NumberProp (Some 338))
   \<and> pages (empty_book\<lparr>pages := Some []\<rparr>) = Some (extract_pages [39029, 25968])
   \<and> map_of (build_notion_properties (empty_book\<lparr>pages := Some []\<rparr>)) key_pages =
       Some (NumberProp None)"
proof -
  let ?sp = "\<lparr>label_text = [39029, 25968], next_siblings = []\<rparr>"
  note t1 = extract_pages_number [of "ustr ''338'' @ [39029]" ?sp empty_book
      "empty_book\<lparr>pages := Some (ustr ''338'')\<rparr>" "empty_book\<lparr>pages := Some []\<rparr>" "[]"]
  note t2 = extract_pages_number [of "[39029, 25968]" ?sp empty_book
      "empty_book\<lparr>pages := Some []\<rparr>" "empty_book\<lparr>pages := Some []\<rparr>" "[]"]
  have e: "extract_pages (ustr ''338'' @ [39029]) = ustr ''338''" using t1 by blast
  have n: "\<not> isdecimal 39029 \<and> \<not> isdecimal 25968"
    by (simp add: isdecimal_def decimal_value_def decimal_zeros_def)
  have z: "extract_pages [39029, 25968] = []" using t2 n by simp
  have p1: "pages (empty_book\<lparr>pages := Some (ustr ''338'')\<rparr>) =
      Some (extract_pages (ustr ''338'' @ [39029]))"
    unfolding e by simp
  have ne: "extract_pages (ustr ''338'' @ [39029]) \<noteq> []
      \<and> length (extract_pages (ustr ''338'' @ [39029])) \<le> 4300"
    unfolding e by (simp add: ustr_def)
  have "map_of (build_notion_properties (empty_book\<lparr>pages := Some (ustr ''338'')\<rparr>)) key_pages =
      Some (NumberProp (if extract_pages (ustr ''338'' @ [39029]) = [] then None
                        else py_int (extract_pages (ustr ''338'' @ [39029]))))"
    using t1 p1 by blast
  then have m1: "map_of (build_notion_properties (empty_book\<lparr>pages := Some (ustr ''338'')\<rparr>))
      key_pages = Some (NumberProp (Some 338))"
    using ne unfolding e by (simp add: py_int_338)
  have p2: "pages (empty_book\<lparr>pages := Some []\<rparr>) = Some (extract_pages [39029, 25968])"
    unfolding z by simp
  have "map_of (build_notion_properties (empty_book\<lparr>pages := Some []\<rparr>)) key_pages =
      Some (NumberProp (if extract_pages [39029, 25968] = [] then None
                        else py_int (extract_pages [39029, 25968])))"
    using t2 p2 by blast
  then have m2: "map_of (build_notion_properties (empty_book\<lparr>pages := Some []\<rparr>)) key_pages =
      Some (NumberProp None)"
    unfolding z by simp
  show ?thesis using e n z p1 ne m1 p2 m2 by blast
qed

end
